theory Spec2Isabelle
  imports Main "HOL-Library.Word"
begin

unbundle bit_operations_syntax

section \<open>The debug program buffer of src/target/riscv/program.c\<close>

text \<open>
  A shallow embedding of \<^verbatim>\<open>program.c\<close>: the \<^verbatim>\<open>struct riscv_program\<close> is a record, every
  C function is a HOL function of the same name that takes the program and returns the
  updated one, \<^verbatim>\<open>abort()\<close> and a failed \<^verbatim>\<open>assert\<close> are the left summand of the result
  (assertions are taken as compiled in). The logging calls are left out. An \<^verbatim>\<open>int\<close>
  offset that is only handed on to an encoder is an \<open>int\<close>; the arrays \<^verbatim>\<open>writes_xreg\<close> and
  \<^verbatim>\<open>in_use\<close> are functions of the register number, which every access keeps below
  \<open>RISCV_REGISTER_COUNT\<close>; \<^verbatim>\<open>debug_buffer\<close> is a list of \<open>RISCV_MAX_DEBUG_BUFFER_SIZE\<close>
  words.
\<close>

subsection \<open>Types and constants of the headers\<close>

text \<open>
  Modelled from the spec: the headers \<^verbatim>\<open>riscv.h\<close>, \<^verbatim>\<open>program.h\<close> and \<^verbatim>\<open>gdb_regs.h\<close>, which
  declare the types and constants below, are missing from the sources. The address is a
  signed, word-sized integer (section 4.2), so \<open>riscv_addr_t\<close> is a 64-bit word read in
  two's complement. The general-purpose registers are X0 to X31 (section 3), numbered 0
  to 31 as in the instruction set, where S0 is x8; the flag arrays are indexed over them,
  so \<open>RISCV_REGISTER_COUNT\<close> is 32. The CSR numbers follow the floating-point registers
  in the register numbering, and the buffer array has 32 words; no property below
  depends on the values of \<open>GDB_REGNO_CSR0\<close> and \<open>RISCV_MAX_DEBUG_BUFFER_SIZE\<close> beyond the
  buffer array not being empty.
\<close>

type_synonym riscv_reg_t = "64 word"
type_synonym riscv_addr_t = "64 word"
type_synonym gdb_regno = nat

definition GDB_REGNO_XPR0 :: gdb_regno where "GDB_REGNO_XPR0 = 0"
definition GDB_REGNO_X0 :: gdb_regno where "GDB_REGNO_X0 = 0"
definition GDB_REGNO_S0 :: gdb_regno where "GDB_REGNO_S0 = 8"
definition GDB_REGNO_XPR31 :: gdb_regno where "GDB_REGNO_XPR31 = 31"
definition GDB_REGNO_CSR0 :: gdb_regno where "GDB_REGNO_CSR0 = 65"
definition GDB_REGNO_CSR4095 :: gdb_regno where "GDB_REGNO_CSR4095 = 65 + 4095"
definition RISCV_REGISTER_COUNT :: nat where "RISCV_REGISTER_COUNT = 32"
definition RISCV_MAX_DEBUG_BUFFER_SIZE :: nat where "RISCV_MAX_DEBUG_BUFFER_SIZE = 32"

text \<open>
  An instruction word \<^verbatim>\<open>riscv_insn_t\<close>. The encoders of \<^verbatim>\<open>asm.h\<close> (\<^verbatim>\<open>lw(d, b, offset)\<close>,
  \<^verbatim>\<open>lui(d, u)\<close>, ...) are outside the sources, and \<^verbatim>\<open>program.c\<close> never looks into a word
  it has encoded; a word is therefore kept as the encoder call that produced it, with
  the registers and the integer value of the immediate that \<^verbatim>\<open>program.c\<close> passes.
  \<open>Insn_word\<close> is a word that no encoder produced: the filler \<open>-1\<close> of
  \<^verbatim>\<open>riscv_program_init\<close>, or whatever the hardware buffer holds.
\<close>

datatype riscv_insn_t =
    Insn_word "32 word"
  | SW gdb_regno gdb_regno int
  | SH gdb_regno gdb_regno int
  | SB gdb_regno gdb_regno int
  | SD gdb_regno gdb_regno int
  | LW gdb_regno gdb_regno int
  | LH gdb_regno gdb_regno int
  | LB gdb_regno gdb_regno int
  | LD gdb_regno gdb_regno int
  | CSRRS gdb_regno gdb_regno int
  | CSRRW gdb_regno gdb_regno int
  | FENCE
  | FENCE_I
  | EBREAK
  | LUI gdb_regno int
  | ADDI gdb_regno gdb_regno int

text \<open>What \<^verbatim>\<open>program.c\<close> reads of \<^verbatim>\<open>struct target\<close>, through \<^verbatim>\<open>riscv_xlen\<close> and
  \<^verbatim>\<open>riscv_debug_buffer_size\<close>.\<close>

record target =
  riscv_xlen :: int
  riscv_debug_buffer_size :: nat

record riscv_program =
  target :: target
  debug_buffer :: "riscv_insn_t list"
  instruction_count :: nat
  writes_memory :: bool
  target_xlen :: int
  writes_xreg :: "gdb_regno \<Rightarrow> bool"
  in_use :: "gdb_regno \<Rightarrow> bool"

text \<open>The two return codes of \<^verbatim>\<open>helper/log.h\<close> that the file uses.\<close>

datatype error_code = ERROR_OK | ERROR_FAIL

text \<open>The ways a call does not return: each \<^verbatim>\<open>abort()\<close> of the file, and a failed
  \<^verbatim>\<open>assert\<close>.\<close>

datatype fatal =
    Insert_overflow
  | Unable_to_write_fence
  | Unable_to_write_ebreak
  | Unknown_xlen
  | Out_of_temporaries
  | Assertion_failed

type_synonym 'a outcome = "fatal + 'a"

text \<open>The idiom \<^verbatim>\<open>if (f(...) != ERROR_OK) return ERROR_FAIL;\<close> followed by the rest of
  the function.\<close>

definition or_fail ::
  "(error_code \<times> riscv_program) outcome \<Rightarrow>
   (riscv_program \<Rightarrow> (error_code \<times> riscv_program) outcome) \<Rightarrow>
   (error_code \<times> riscv_program) outcome" where
  "or_fail m k =
     (case m of
        Inl e \<Rightarrow> Inl e
      | Inr (rc, p) \<Rightarrow> if rc \<noteq> ERROR_OK then Inr (ERROR_FAIL, p) else k p)"

subsection \<open>Program interface\<close>

text \<open>\<^verbatim>\<open>riscv_program_init\<close> always returns \<^verbatim>\<open>ERROR_OK\<close>; the model returns the program it
  leaves.\<close>

definition riscv_program_init :: "target \<Rightarrow> riscv_program" where
  "riscv_program_init tgt =
     \<lparr> target = tgt,
       debug_buffer = replicate RISCV_MAX_DEBUG_BUFFER_SIZE (Insn_word (- 1)),
       instruction_count = 0,
       writes_memory = False,
       target_xlen = riscv_xlen tgt,
       writes_xreg = (\<lambda>_. False),
       in_use = (\<lambda>_. False) \<rparr>"

text \<open>The store \<^verbatim>\<open>p->debug_buffer[p->instruction_count] = i\<close> is within the array when
  the buffer size of the target is at most the length of the array; beyond it the C
  store is out of bounds, and the list update of the model does nothing. Every property
  below about where a word lands, or about more words than the array holds, assumes
  \<open>riscv_debug_buffer_size (target p) \<le> length (debug_buffer p)\<close>.\<close>

definition riscv_program_insert ::
  "riscv_program \<Rightarrow> riscv_insn_t \<Rightarrow> (error_code \<times> riscv_program) outcome" where
  "riscv_program_insert p i =
     (if instruction_count p \<ge> riscv_debug_buffer_size (target p) then Inl Insert_overflow
      else Inr (ERROR_OK,
             p\<lparr> debug_buffer := (debug_buffer p)[instruction_count p := i],
                instruction_count := instruction_count p + 1 \<rparr>))"

subsection \<open>Register-offset stores and loads\<close>

definition riscv_program_swr ::
  "riscv_program \<Rightarrow> gdb_regno \<Rightarrow> gdb_regno \<Rightarrow> int \<Rightarrow> (error_code \<times> riscv_program) outcome" where
  "riscv_program_swr p d b offset =
     riscv_program_insert (p\<lparr>writes_memory := True\<rparr>) (SW d b offset)"

definition riscv_program_shr ::
  "riscv_program \<Rightarrow> gdb_regno \<Rightarrow> gdb_regno \<Rightarrow> int \<Rightarrow> (error_code \<times> riscv_program) outcome" where
  "riscv_program_shr p d b offset =
     riscv_program_insert (p\<lparr>writes_memory := True\<rparr>) (SH d b offset)"

definition riscv_program_sbr ::
  "riscv_program \<Rightarrow> gdb_regno \<Rightarrow> gdb_regno \<Rightarrow> int \<Rightarrow> (error_code \<times> riscv_program) outcome" where
  "riscv_program_sbr p d b offset =
     riscv_program_insert (p\<lparr>writes_memory := True\<rparr>) (SB d b offset)"

definition riscv_program_lwr ::
  "riscv_program \<Rightarrow> gdb_regno \<Rightarrow> gdb_regno \<Rightarrow> int \<Rightarrow> (error_code \<times> riscv_program) outcome" where
  "riscv_program_lwr p d b offset =
     riscv_program_insert (p\<lparr>writes_memory := True\<rparr>) (LW d b offset)"

definition riscv_program_lhr ::
  "riscv_program \<Rightarrow> gdb_regno \<Rightarrow> gdb_regno \<Rightarrow> int \<Rightarrow> (error_code \<times> riscv_program) outcome" where
  "riscv_program_lhr p d b offset =
     riscv_program_insert (p\<lparr>writes_memory := True\<rparr>) (LH d b offset)"

definition riscv_program_lbr ::
  "riscv_program \<Rightarrow> gdb_regno \<Rightarrow> gdb_regno \<Rightarrow> int \<Rightarrow> (error_code \<times> riscv_program) outcome" where
  "riscv_program_lbr p d b offset =
     riscv_program_insert (p\<lparr>writes_memory := True\<rparr>) (LB d b offset)"

subsection \<open>Helper functions: splitting an address\<close>

definition riscv_program_gah :: "riscv_addr_t \<Rightarrow> riscv_addr_t" where
  "riscv_program_gah addr = signed_drop_bit 12 addr"

definition riscv_program_gal :: "riscv_addr_t \<Rightarrow> riscv_addr_t" where
  "riscv_program_gal addr = (if 0 <s addr then addr AND 0x7FF else 0)"

definition riscv_program_lui ::
  "riscv_program \<Rightarrow> gdb_regno \<Rightarrow> 32 word \<Rightarrow> (error_code \<times> riscv_program) outcome" where
  "riscv_program_lui p d u = riscv_program_insert p (LUI d (sint u))"

definition riscv_program_addi ::
  "riscv_program \<Rightarrow> gdb_regno \<Rightarrow> gdb_regno \<Rightarrow> 16 word \<Rightarrow> (error_code \<times> riscv_program) outcome" where
  "riscv_program_addi p d s u = riscv_program_insert p (ADDI d s (sint u))"

definition riscv_program_lah ::
  "riscv_program \<Rightarrow> gdb_regno \<Rightarrow> riscv_addr_t \<Rightarrow> (error_code \<times> riscv_program) outcome" where
  "riscv_program_lah p d addr =
     (let ah = riscv_program_gah addr in
      if ah = 0 then Inr (ERROR_OK, p)
      else riscv_program_lui p d (ucast ah))"

definition riscv_program_lal ::
  "riscv_program \<Rightarrow> gdb_regno \<Rightarrow> riscv_addr_t \<Rightarrow> (error_code \<times> riscv_program) outcome" where
  "riscv_program_lal p d addr =
     (let al = riscv_program_gal addr in
      if al = 0 then Inr (ERROR_OK, p)
      else riscv_program_addi p d d (ucast al))"


subsection \<open>Address-relative loads\<close>

definition riscv_program_ld ::
  "riscv_program \<Rightarrow> gdb_regno \<Rightarrow> riscv_addr_t \<Rightarrow> (error_code \<times> riscv_program) outcome" where
  "riscv_program_ld p d addr =
     (let t = (if riscv_program_gah addr = 0 then GDB_REGNO_X0 else d) in
      or_fail (riscv_program_lah p d addr) (\<lambda>p1.
      or_fail (riscv_program_insert p1 (LD d t (sint (riscv_program_gal addr)))) (\<lambda>p2.
      Inr (ERROR_OK, p2))))"

definition riscv_program_lw ::
  "riscv_program \<Rightarrow> gdb_regno \<Rightarrow> riscv_addr_t \<Rightarrow> (error_code \<times> riscv_program) outcome" where
  "riscv_program_lw p d addr =
     (let t = (if riscv_program_gah addr = 0 then GDB_REGNO_X0 else d) in
      or_fail (riscv_program_lah p d addr) (\<lambda>p1.
      or_fail (riscv_program_insert p1 (LW d t (sint (riscv_program_gal addr)))) (\<lambda>p2.
      Inr (ERROR_OK, p2))))"

definition riscv_program_lh ::
  "riscv_program \<Rightarrow> gdb_regno \<Rightarrow> riscv_addr_t \<Rightarrow> (error_code \<times> riscv_program) outcome" where
  "riscv_program_lh p d addr =
     (let t = (if riscv_program_gah addr = 0 then GDB_REGNO_X0 else d) in
      or_fail (riscv_program_lah p d addr) (\<lambda>p1.
      or_fail (riscv_program_insert p1 (LH d t (sint (riscv_program_gal addr)))) (\<lambda>p2.
      Inr (ERROR_OK, p2))))"

text \<open>The byte load hands \<open>t\<close>, not \<open>d\<close>, to \<open>riscv_program_lah\<close>.\<close>

definition riscv_program_lb ::
  "riscv_program \<Rightarrow> gdb_regno \<Rightarrow> riscv_addr_t \<Rightarrow> (error_code \<times> riscv_program) outcome" where
  "riscv_program_lb p d addr =
     (let t = (if riscv_program_gah addr = 0 then GDB_REGNO_X0 else d) in
      or_fail (riscv_program_lah p t addr) (\<lambda>p1.
      or_fail (riscv_program_insert p1 (LB d t (sint (riscv_program_gal addr)))) (\<lambda>p2.
      Inr (ERROR_OK, p2))))"

definition riscv_program_lx ::
  "riscv_program \<Rightarrow> gdb_regno \<Rightarrow> riscv_addr_t \<Rightarrow> (error_code \<times> riscv_program) outcome" where
  "riscv_program_lx p d addr =
     (if target_xlen p = 64 then riscv_program_ld p d addr
      else if target_xlen p = 32 then riscv_program_lw p d addr
      else Inl Unknown_xlen)"

text \<open>The byte load written the way its siblings \<open>ld\<close>, \<open>lw\<close> and \<open>lh\<close> are: the
  destination \<open>d\<close> goes to \<open>riscv_program_lah\<close>. This is the shape that
  \<open>riscv_program_lb\<close> is compared with; the source has no such function.\<close>

definition riscv_program_lb_sibling_shape ::
  "riscv_program \<Rightarrow> gdb_regno \<Rightarrow> riscv_addr_t \<Rightarrow> (error_code \<times> riscv_program) outcome" where
  "riscv_program_lb_sibling_shape p d addr =
     (let t = (if riscv_program_gah addr = 0 then GDB_REGNO_X0 else d) in
      or_fail (riscv_program_lah p d addr) (\<lambda>p1.
      or_fail (riscv_program_insert p1 (LB d t (sint (riscv_program_gal addr)))) (\<lambda>p2.
      Inr (ERROR_OK, p2))))"

subsection \<open>Restore marks and temporaries\<close>

definition riscv_program_dont_restore_register ::
  "riscv_program \<Rightarrow> gdb_regno \<Rightarrow> (error_code \<times> riscv_program) outcome" where
  "riscv_program_dont_restore_register p r =
     (if \<not> r < RISCV_REGISTER_COUNT then Inl Assertion_failed
      else Inr (ERROR_OK, p\<lparr>writes_xreg := (writes_xreg p)(r := False)\<rparr>))"

definition riscv_program_do_restore_register ::
  "riscv_program \<Rightarrow> gdb_regno \<Rightarrow> (error_code \<times> riscv_program) outcome" where
  "riscv_program_do_restore_register p r =
     (if \<not> r < RISCV_REGISTER_COUNT then Inl Assertion_failed
      else Inr (ERROR_OK, p\<lparr>writes_xreg := (writes_xreg p)(r := True)\<rparr>))"

text \<open>The loop of \<^verbatim>\<open>riscv_program_gettemp\<close> over the registers still to be looked at.\<close>

fun gettemp_loop :: "riscv_program \<Rightarrow> gdb_regno list \<Rightarrow> (gdb_regno \<times> riscv_program) outcome" where
  "gettemp_loop p [] = Inl Out_of_temporaries"
| "gettemp_loop p (i # rest) =
     (if in_use p i then gettemp_loop p rest
      else (case riscv_program_do_restore_register p i of
              Inl e \<Rightarrow> Inl e
            | Inr (_, p1) \<Rightarrow> Inr (i, p1\<lparr>in_use := (in_use p1)(i := True)\<rparr>)))"

definition riscv_program_gettemp :: "riscv_program \<Rightarrow> (gdb_regno \<times> riscv_program) outcome" where
  "riscv_program_gettemp p = gettemp_loop p [GDB_REGNO_S0 ..< Suc GDB_REGNO_XPR31]"

definition riscv_program_puttemp :: "riscv_program \<Rightarrow> gdb_regno \<Rightarrow> riscv_program outcome" where
  "riscv_program_puttemp p r =
     (if \<not> r < RISCV_REGISTER_COUNT then Inl Assertion_failed
      else Inr (p\<lparr>in_use := (in_use p)(r := False)\<rparr>))"

subsection \<open>Address-relative stores\<close>

definition riscv_program_sd ::
  "riscv_program \<Rightarrow> gdb_regno \<Rightarrow> riscv_addr_t \<Rightarrow> (error_code \<times> riscv_program) outcome" where
  "riscv_program_sd p d addr =
     (case (if riscv_program_gah addr = 0 then Inr (GDB_REGNO_X0, p)
            else riscv_program_gettemp p) of
        Inl e \<Rightarrow> Inl e
      | Inr (t, p0) \<Rightarrow>
          or_fail (riscv_program_lah p0 t addr) (\<lambda>p1.
          or_fail (riscv_program_insert p1 (SD d t (sint (riscv_program_gal addr)))) (\<lambda>p2.
          (case riscv_program_puttemp p2 t of
             Inl e \<Rightarrow> Inl e
           | Inr p3 \<Rightarrow> Inr (ERROR_OK, p3\<lparr>writes_memory := True\<rparr>)))))"

definition riscv_program_sw ::
  "riscv_program \<Rightarrow> gdb_regno \<Rightarrow> riscv_addr_t \<Rightarrow> (error_code \<times> riscv_program) outcome" where
  "riscv_program_sw p d addr =
     (case (if riscv_program_gah addr = 0 then Inr (GDB_REGNO_X0, p)
            else riscv_program_gettemp p) of
        Inl e \<Rightarrow> Inl e
      | Inr (t, p0) \<Rightarrow>
          or_fail (riscv_program_lah p0 t addr) (\<lambda>p1.
          or_fail (riscv_program_insert p1 (SW d t (sint (riscv_program_gal addr)))) (\<lambda>p2.
          (case riscv_program_puttemp p2 t of
             Inl e \<Rightarrow> Inl e
           | Inr p3 \<Rightarrow> Inr (ERROR_OK, p3\<lparr>writes_memory := True\<rparr>)))))"

definition riscv_program_sh ::
  "riscv_program \<Rightarrow> gdb_regno \<Rightarrow> riscv_addr_t \<Rightarrow> (error_code \<times> riscv_program) outcome" where
  "riscv_program_sh p d addr =
     (case (if riscv_program_gah addr = 0 then Inr (GDB_REGNO_X0, p)
            else riscv_program_gettemp p) of
        Inl e \<Rightarrow> Inl e
      | Inr (t, p0) \<Rightarrow>
          or_fail (riscv_program_lah p0 t addr) (\<lambda>p1.
          or_fail (riscv_program_insert p1 (SH d t (sint (riscv_program_gal addr)))) (\<lambda>p2.
          (case riscv_program_puttemp p2 t of
             Inl e \<Rightarrow> Inl e
           | Inr p3 \<Rightarrow> Inr (ERROR_OK, p3\<lparr>writes_memory := True\<rparr>)))))"

definition riscv_program_sb ::
  "riscv_program \<Rightarrow> gdb_regno \<Rightarrow> riscv_addr_t \<Rightarrow> (error_code \<times> riscv_program) outcome" where
  "riscv_program_sb p d addr =
     (case (if riscv_program_gah addr = 0 then Inr (GDB_REGNO_X0, p)
            else riscv_program_gettemp p) of
        Inl e \<Rightarrow> Inl e
      | Inr (t, p0) \<Rightarrow>
          or_fail (riscv_program_lah p0 t addr) (\<lambda>p1.
          or_fail (riscv_program_insert p1 (SB d t (sint (riscv_program_gal addr)))) (\<lambda>p2.
          (case riscv_program_puttemp p2 t of
             Inl e \<Rightarrow> Inl e
           | Inr p3 \<Rightarrow> Inr (ERROR_OK, p3\<lparr>writes_memory := True\<rparr>)))))"

definition riscv_program_sx ::
  "riscv_program \<Rightarrow> gdb_regno \<Rightarrow> riscv_addr_t \<Rightarrow> (error_code \<times> riscv_program) outcome" where
  "riscv_program_sx p d addr =
     (if target_xlen p = 64 then riscv_program_sd p d addr
      else if target_xlen p = 32 then riscv_program_sw p d addr
      else Inl Unknown_xlen)"

subsection \<open>CSR access, fences, breakpoint, constants\<close>

definition riscv_program_csrr ::
  "riscv_program \<Rightarrow> gdb_regno \<Rightarrow> gdb_regno \<Rightarrow> (error_code \<times> riscv_program) outcome" where
  "riscv_program_csrr p d csr =
     (if \<not> (csr \<ge> GDB_REGNO_CSR0 \<and> csr \<le> GDB_REGNO_CSR4095) then Inl Assertion_failed
      else riscv_program_insert p (CSRRS d GDB_REGNO_X0 (int csr - int GDB_REGNO_CSR0)))"

definition riscv_program_csrw ::
  "riscv_program \<Rightarrow> gdb_regno \<Rightarrow> gdb_regno \<Rightarrow> (error_code \<times> riscv_program) outcome" where
  "riscv_program_csrw p s csr =
     (if \<not> csr \<ge> GDB_REGNO_CSR0 then Inl Assertion_failed
      else riscv_program_insert p (CSRRW GDB_REGNO_X0 s (int csr - int GDB_REGNO_CSR0)))"

definition riscv_program_csrrw ::
  "riscv_program \<Rightarrow> gdb_regno \<Rightarrow> gdb_regno \<Rightarrow> gdb_regno \<Rightarrow>
   (error_code \<times> riscv_program) outcome" where
  "riscv_program_csrrw p d s csr =
     (if \<not> csr \<ge> GDB_REGNO_CSR0 then Inl Assertion_failed
      else riscv_program_insert p (CSRRW d s (int csr - int GDB_REGNO_CSR0)))"

definition riscv_program_fence_i :: "riscv_program \<Rightarrow> (error_code \<times> riscv_program) outcome" where
  "riscv_program_fence_i p = riscv_program_insert p FENCE_I"

definition riscv_program_fence :: "riscv_program \<Rightarrow> (error_code \<times> riscv_program) outcome" where
  "riscv_program_fence p = riscv_program_insert p FENCE"

definition riscv_program_ebreak :: "riscv_program \<Rightarrow> (error_code \<times> riscv_program) outcome" where
  "riscv_program_ebreak p =
     (if instruction_count p = riscv_debug_buffer_size (target p) then Inr (ERROR_OK, p)
      else riscv_program_insert p EBREAK)"

text \<open>\<^verbatim>\<open>c >> 12\<close> is cut to the \<^verbatim>\<open>int32_t\<close> parameter of \<^verbatim>\<open>riscv_program_lui\<close>: bits 12 to 43
  of \<open>c\<close>, the same for a logical and an arithmetic shift.\<close>

definition riscv_program_li ::
  "riscv_program \<Rightarrow> gdb_regno \<Rightarrow> riscv_reg_t \<Rightarrow> (error_code \<times> riscv_program) outcome" where
  "riscv_program_li p d c =
     or_fail (riscv_program_lui p d (ucast (drop_bit 12 c))) (\<lambda>p1.
     or_fail (riscv_program_addi p1 d d (ucast (c AND 0xFFF))) (\<lambda>p2.
     Inr (ERROR_OK, p2)))"

subsection \<open>The target during execution\<close>

text \<open>
  Modelled from the spec: the transport functions \<^verbatim>\<open>keep_alive\<close>, \<^verbatim>\<open>riscv_get_register\<close>,
  \<^verbatim>\<open>riscv_set_register\<close>, \<^verbatim>\<open>riscv_write_debug_buffer\<close>, \<^verbatim>\<open>riscv_read_debug_buffer\<close> and
  \<^verbatim>\<open>riscv_execute_debug_buffer\<close> are outside the sources; section 6 of the spec gives
  their contracts (\<open>read_register(id) -> value\<close>, \<open>write_register(id, value)\<close>,
  \<open>write_debug_buffer(index, word)\<close>, \<open>read_debug_buffer(index) -> word\<close>,
  \<open>execute_debug_buffer() -> success|failure\<close>, \<open>heartbeat()\<close>). The hart is a register
  file and a hardware program buffer, together with the list of the transport calls made
  so far, oldest first. What running the buffer does to the hart, and whether a buffer
  write succeeds, is not fixed by anything here: both are parameters.
\<close>

datatype hw_call =
    Keep_alive
  | Get_register gdb_regno
  | Set_register gdb_regno riscv_reg_t
  | Write_debug_buffer nat riscv_insn_t
  | Execute_debug_buffer
  | Read_debug_buffer nat

record hart =
  xregs :: "gdb_regno \<Rightarrow> riscv_reg_t"
  progbuf :: "nat \<Rightarrow> riscv_insn_t"
  calls :: "hw_call list"

record transport =
  write_status :: "hart \<Rightarrow> nat \<Rightarrow> riscv_insn_t \<Rightarrow> error_code"
  execute :: "hart \<Rightarrow> error_code \<times> hart"

definition keep_alive :: "hart \<Rightarrow> hart" where
  "keep_alive h = h\<lparr>calls := calls h @ [Keep_alive]\<rparr>"

definition riscv_get_register :: "hart \<Rightarrow> gdb_regno \<Rightarrow> riscv_reg_t \<times> hart" where
  "riscv_get_register h r = (xregs h r, h\<lparr>calls := calls h @ [Get_register r]\<rparr>)"

definition riscv_set_register :: "hart \<Rightarrow> gdb_regno \<Rightarrow> riscv_reg_t \<Rightarrow> hart" where
  "riscv_set_register h r v =
     h\<lparr>xregs := (xregs h)(r := v), calls := calls h @ [Set_register r v]\<rparr>"

definition riscv_write_debug_buffer ::
  "transport \<Rightarrow> hart \<Rightarrow> nat \<Rightarrow> riscv_insn_t \<Rightarrow> error_code \<times> hart" where
  "riscv_write_debug_buffer T h i w =
     (case write_status T h i w of
        ERROR_OK \<Rightarrow>
          (ERROR_OK, h\<lparr>progbuf := (progbuf h)(i := w),
                       calls := calls h @ [Write_debug_buffer i w]\<rparr>)
      | ERROR_FAIL \<Rightarrow> (ERROR_FAIL, h\<lparr>calls := calls h @ [Write_debug_buffer i w]\<rparr>))"

definition riscv_read_debug_buffer :: "hart \<Rightarrow> nat \<Rightarrow> riscv_insn_t \<times> hart" where
  "riscv_read_debug_buffer h i = (progbuf h i, h\<lparr>calls := calls h @ [Read_debug_buffer i]\<rparr>)"

definition riscv_execute_debug_buffer :: "transport \<Rightarrow> hart \<Rightarrow> error_code \<times> hart" where
  "riscv_execute_debug_buffer T h =
     (case execute T h of
        (rc, h') \<Rightarrow> (rc, h'\<lparr>calls := calls h @ [Execute_debug_buffer]\<rparr>))"

subsection \<open>Writing and executing the program\<close>

text \<open>The loop of \<^verbatim>\<open>riscv_program_write\<close> over the indices still to be written; each is
  below \<open>instruction_count\<close>.\<close>

fun write_loop :: "transport \<Rightarrow> riscv_program \<Rightarrow> nat list \<Rightarrow> hart \<Rightarrow> error_code \<times> hart" where
  "write_loop T p [] h = (ERROR_OK, h)"
| "write_loop T p (i # rest) h =
     (case riscv_write_debug_buffer T h i (debug_buffer p ! i) of
        (rc, h') \<Rightarrow> if rc \<noteq> ERROR_OK then (ERROR_FAIL, h') else write_loop T p rest h')"

definition riscv_program_write :: "transport \<Rightarrow> riscv_program \<Rightarrow> hart \<Rightarrow> error_code \<times> hart" where
  "riscv_program_write T p h = write_loop T p [0 ..< instruction_count p] h"

text \<open>The three loops of \<^verbatim>\<open>riscv_program_exec\<close>. \<open>saved\<close> is the local array
  \<^verbatim>\<open>saved_registers\<close>.\<close>

fun save_loop ::
  "riscv_program \<Rightarrow> gdb_regno list \<Rightarrow> (gdb_regno \<Rightarrow> riscv_reg_t) \<Rightarrow> hart \<Rightarrow>
   (gdb_regno \<Rightarrow> riscv_reg_t) \<times> hart" where
  "save_loop p [] saved h = (saved, h)"
| "save_loop p (i # rest) saved h =
     (if writes_xreg p i
      then (case riscv_get_register h i of (v, h') \<Rightarrow> save_loop p rest (saved(i := v)) h')
      else save_loop p rest saved h)"

fun readback_loop :: "riscv_program \<Rightarrow> nat list \<Rightarrow> hart \<Rightarrow> riscv_program \<times> hart" where
  "readback_loop p [] h = (p, h)"
| "readback_loop p (i # rest) h =
     (if i \<ge> riscv_debug_buffer_size (target p)
      then (case riscv_read_debug_buffer h i of
              (w, h') \<Rightarrow> readback_loop (p\<lparr>debug_buffer := (debug_buffer p)[i := w]\<rparr>) rest h')
      else readback_loop p rest h)"

fun restore_loop ::
  "riscv_program \<Rightarrow> (gdb_regno \<Rightarrow> riscv_reg_t) \<Rightarrow> gdb_regno list \<Rightarrow> hart \<Rightarrow> hart" where
  "restore_loop p saved [] h = h"
| "restore_loop p saved (i # rest) h =
     restore_loop p saved rest
       (if writes_xreg p i then riscv_set_register h i (saved i) else h)"

text \<open>\<open>stack\<close> is what the uninitialised array \<^verbatim>\<open>saved_registers\<close> holds when the
  function is entered. The argument \<open>t\<close> and \<^verbatim>\<open>p->target\<close> are the same target: \<open>t\<close> is
  its hart, \<open>target p\<close> its buffer size and register width. The value that
  \<^verbatim>\<open>riscv_set_register\<close> returns is not looked at.\<close>

definition riscv_program_exec ::
  "transport \<Rightarrow> (gdb_regno \<Rightarrow> riscv_reg_t) \<Rightarrow> riscv_program \<Rightarrow> hart \<Rightarrow>
   (error_code \<times> riscv_program \<times> hart) outcome" where
  "riscv_program_exec T stack p t =
     (case save_loop p [GDB_REGNO_XPR0 + 1 ..< Suc GDB_REGNO_XPR31] stack (keep_alive t) of
        (saved_registers, t1) \<Rightarrow>
     (case (if writes_memory p then riscv_program_fence p else Inr (ERROR_OK, p)) of
        Inl e \<Rightarrow> Inl e
      | Inr (rc1, p1) \<Rightarrow>
          if writes_memory p \<and> rc1 \<noteq> ERROR_OK then Inl Unable_to_write_fence
          else
     (case riscv_program_ebreak p1 of
        Inl e \<Rightarrow> Inl e
      | Inr (rc2, p2) \<Rightarrow>
          if rc2 \<noteq> ERROR_OK then Inl Unable_to_write_ebreak
          else
     (case riscv_program_write T p2 t1 of
        (rc3, t2) \<Rightarrow>
          if rc3 \<noteq> ERROR_OK then Inr (ERROR_FAIL, p2, t2)
          else
     (case riscv_execute_debug_buffer T t2 of
        (rc4, t3) \<Rightarrow>
          if rc4 \<noteq> ERROR_OK then Inr (ERROR_FAIL, p2, t3)
          else
     (case readback_loop p2 [0 ..< riscv_debug_buffer_size (target p2)] t3 of
        (p3, t4) \<Rightarrow>
          Inr (ERROR_OK, p3,
               restore_loop p3 saved_registers [GDB_REGNO_XPR0 ..< Suc GDB_REGNO_XPR31] t4)))))))"

subsection \<open>The operations as values\<close>

text \<open>
  To state a property of every operation, and of every sequence of operations, the
  functions of \<^verbatim>\<open>program.c\<close> that work on the program alone are listed as values:
  \<open>emission\<close> holds the functions that return an error code, each constructor with the
  arguments of the function named after it, and \<open>emit\<close> calls the function.
  \<open>program_call\<close> adds the four functions that manage the restore marks and the
  temporaries; \<open>call\<close> keeps the program a call leaves and drops the value it returns,
  \<open>run\<close> makes the calls of a list in order and stops at the first fatal one.
\<close>

datatype emission =
    Insert riscv_insn_t
  | Swr gdb_regno gdb_regno int
  | Shr gdb_regno gdb_regno int
  | Sbr gdb_regno gdb_regno int
  | Lwr gdb_regno gdb_regno int
  | Lhr gdb_regno gdb_regno int
  | Lbr gdb_regno gdb_regno int
  | Lx gdb_regno riscv_addr_t
  | Ld gdb_regno riscv_addr_t
  | Lw gdb_regno riscv_addr_t
  | Lh gdb_regno riscv_addr_t
  | Lb gdb_regno riscv_addr_t
  | Sx gdb_regno riscv_addr_t
  | Sd gdb_regno riscv_addr_t
  | Sw gdb_regno riscv_addr_t
  | Sh gdb_regno riscv_addr_t
  | Sb gdb_regno riscv_addr_t
  | Csrr gdb_regno gdb_regno
  | Csrw gdb_regno gdb_regno
  | Csrrw gdb_regno gdb_regno gdb_regno
  | Fence_i
  | Fence
  | Ebreak
  | Lui gdb_regno "32 word"
  | Addi gdb_regno gdb_regno "16 word"
  | Li gdb_regno riscv_reg_t
  | Lah gdb_regno riscv_addr_t
  | Lal gdb_regno riscv_addr_t

fun emit :: "emission \<Rightarrow> riscv_program \<Rightarrow> (error_code \<times> riscv_program) outcome" where
  "emit (Insert i) p = riscv_program_insert p i"
| "emit (Swr d b offset) p = riscv_program_swr p d b offset"
| "emit (Shr d b offset) p = riscv_program_shr p d b offset"
| "emit (Sbr d b offset) p = riscv_program_sbr p d b offset"
| "emit (Lwr d b offset) p = riscv_program_lwr p d b offset"
| "emit (Lhr d b offset) p = riscv_program_lhr p d b offset"
| "emit (Lbr d b offset) p = riscv_program_lbr p d b offset"
| "emit (Lx d addr) p = riscv_program_lx p d addr"
| "emit (Ld d addr) p = riscv_program_ld p d addr"
| "emit (Lw d addr) p = riscv_program_lw p d addr"
| "emit (Lh d addr) p = riscv_program_lh p d addr"
| "emit (Lb d addr) p = riscv_program_lb p d addr"
| "emit (Sx d addr) p = riscv_program_sx p d addr"
| "emit (Sd d addr) p = riscv_program_sd p d addr"
| "emit (Sw d addr) p = riscv_program_sw p d addr"
| "emit (Sh d addr) p = riscv_program_sh p d addr"
| "emit (Sb d addr) p = riscv_program_sb p d addr"
| "emit (Csrr d csr) p = riscv_program_csrr p d csr"
| "emit (Csrw s csr) p = riscv_program_csrw p s csr"
| "emit (Csrrw d s csr) p = riscv_program_csrrw p d s csr"
| "emit Fence_i p = riscv_program_fence_i p"
| "emit Fence p = riscv_program_fence p"
| "emit Ebreak p = riscv_program_ebreak p"
| "emit (Lui d u) p = riscv_program_lui p d u"
| "emit (Addi d s u) p = riscv_program_addi p d s u"
| "emit (Li d c) p = riscv_program_li p d c"
| "emit (Lah d addr) p = riscv_program_lah p d addr"
| "emit (Lal d addr) p = riscv_program_lal p d addr"

datatype program_call =
    Emit emission
  | Dont_restore_register gdb_regno
  | Do_restore_register gdb_regno
  | Gettemp
  | Puttemp gdb_regno

fun call :: "program_call \<Rightarrow> riscv_program \<Rightarrow> riscv_program outcome" where
  "call (Emit e) p = map_sum id snd (emit e p)"
| "call (Dont_restore_register r) p = map_sum id snd (riscv_program_dont_restore_register p r)"
| "call (Do_restore_register r) p = map_sum id snd (riscv_program_do_restore_register p r)"
| "call Gettemp p = map_sum id snd (riscv_program_gettemp p)"
| "call (Puttemp r) p = riscv_program_puttemp p r"

fun run :: "program_call list \<Rightarrow> riscv_program \<Rightarrow> riscv_program outcome" where
  "run [] p = Inr p"
| "run (c # cs) p = (case call c p of Inl e \<Rightarrow> Inl e | Inr p' \<Rightarrow> run cs p')"

text \<open>The invariant of the data model: a register that is in use is marked dirtied. The
  two arrays have \<open>RISCV_REGISTER_COUNT\<close> entries.\<close>

definition in_use_dirtied :: "riscv_program \<Rightarrow> bool" where
  "in_use_dirtied p \<longleftrightarrow> (\<forall>r < RISCV_REGISTER_COUNT. in_use p r \<longrightarrow> writes_xreg p r)"

text \<open>Reading the list of transport calls: the registers read, and the registers written
  with the values written, each in the order of the calls.\<close>

fun registers_read :: "hw_call list \<Rightarrow> gdb_regno list" where
  "registers_read [] = []"
| "registers_read (Get_register r # cs) = r # registers_read cs"
| "registers_read (_ # cs) = registers_read cs"

fun registers_written :: "hw_call list \<Rightarrow> (gdb_regno \<times> riscv_reg_t) list" where
  "registers_written [] = []"
| "registers_written (Set_register r v # cs) = (r, v) # registers_written cs"
| "registers_written (_ # cs) = registers_written cs"

fun buffer_reads :: "hw_call list \<Rightarrow> nat list" where
  "buffer_reads [] = []"
| "buffer_reads (Read_debug_buffer i # cs) = i # buffer_reads cs"
| "buffer_reads (_ # cs) = buffer_reads cs"

section \<open>Properties\<close>

subsection \<open>Helper lemmas on words\<close>

lemma and_0x7FF_take_bit: "(a :: 64 word) AND 0x7FF = take_bit 11 a"
proof -
  have "(0x7FF :: 64 word) = mask 11"
    by (simp add: mask_eq_exp_minus_1)
  then show ?thesis
    by (simp add: take_bit_eq_mask)
qed

lemma uint_take_bit_11_sint: "uint (take_bit 11 (a :: 64 word)) = sint a mod 2048"
proof -
  have "uint (take_bit 11 a) = take_bit 11 (uint a)"
    by (simp add: unsigned_take_bit_eq)
  also have "\<dots> = take_bit 11 (take_bit 64 (sint a))"
    by (simp add: uint_sint)
  also have "\<dots> = take_bit 11 (sint a)"
    by simp
  finally show ?thesis
    by (simp add: take_bit_eq_mod)
qed

subsection \<open>The address splitter\<close>

text \<open>
  Claim C6. For every address \<open>a\<close>, read as a signed 64-bit integer: the upper part is the
  arithmetic shift \<open>a >> 12\<close>, whose value is \<open>a\<close> divided by 4096 rounded down; the lower
  part is the bit field \<open>a & 0x7FF\<close>, the value of \<open>a\<close> modulo 2048, when \<open>a > 0\<close>, and it
  is 0 when \<open>a \<le> 0\<close>.
\<close>

theorem address_splitter_upper_lower:
  "riscv_program_gah a = signed_drop_bit 12 a
   \<and> sint (riscv_program_gah a) = sint a div 2 ^ 12
   \<and> riscv_program_gal a = (if 0 < sint a then a AND 0x7FF else 0)
   \<and> uint (riscv_program_gal a) = (if 0 < sint a then sint a mod 2 ^ 11 else 0)"
proof -
  have upper: "sint (riscv_program_gah a) = sint a div 2 ^ 12"
    by (simp add: riscv_program_gah_def sint_signed_drop_bit_eq drop_bit_eq_div)
  have lower: "riscv_program_gal a = (if 0 < sint a then a AND 0x7FF else 0)"
    by (simp add: riscv_program_gal_def word_sless_alt)
  have "uint (riscv_program_gal a) = (if 0 < sint a then sint a mod 2 ^ 11 else 0)"
    by (simp add: lower and_0x7FF_take_bit uint_take_bit_11_sint)
  with upper lower show ?thesis
    by (simp add: riscv_program_gah_def)
qed

subsection \<open>The byte load against its siblings\<close>

text \<open>
  Claim C10. \<open>riscv_program_lb\<close>, which hands the base register \<open>t\<close> to
  \<open>riscv_program_lah\<close>, returns the same result and leaves the same program as the code
  shape of \<open>ld\<close>, \<open>lw\<close> and \<open>lh\<close>, which hands over the destination \<open>d\<close>, for every
  program, destination and address: \<open>riscv_program_lah\<close> emits nothing when the upper
  part of the address is 0, whatever register it is given, and \<open>t\<close> is \<open>d\<close> otherwise.
\<close>

theorem riscv_program_lb_same_as_sibling_shape:
  "riscv_program_lb p d addr = riscv_program_lb_sibling_shape p d addr
   \<and> riscv_program_lah p (if riscv_program_gah addr = 0 then GDB_REGNO_X0 else d) addr
       = riscv_program_lah p d addr
   \<and> riscv_program_lah p r addr
       = (if riscv_program_gah addr = 0 then Inr (ERROR_OK, p)
          else riscv_program_lui p r (ucast (riscv_program_gah addr)))"
  by (simp add: riscv_program_lb_def riscv_program_lb_sibling_shape_def
      riscv_program_lah_def Let_def)

subsection \<open>Allocating a temporary register\<close>

lemma filter_upt_first:
  "filter P [a ..< b] = i # rest \<Longrightarrow> a \<le> i \<and> i < b \<and> P i \<and> (\<forall>j. a \<le> j \<and> j < i \<longrightarrow> \<not> P j)"
proof (induction "b - a" arbitrary: a)
  case 0
  then show ?case by simp
next
  case (Suc n)
  then have ab: "a < b" by linarith
  then have split: "[a ..< b] = a # [Suc a ..< b]" by (simp add: upt_conv_Cons)
  show ?case
  proof (cases "P a")
    case True
    with Suc.prems split ab show ?thesis by auto
  next
    case False
    with Suc.prems split have "filter P [Suc a ..< b] = i # rest" by simp
    moreover from Suc.hyps(2) have "n = b - Suc a" by simp
    ultimately have ih: "Suc a \<le> i \<and> i < b \<and> P i \<and> (\<forall>j. Suc a \<le> j \<and> j < i \<longrightarrow> \<not> P j)"
      using Suc.hyps(1) by blast
    have "\<not> P j" if "a \<le> j \<and> j < i" for j
    proof (cases "j = a")
      case True
      with False show ?thesis by simp
    next
      case False
      with that have "Suc a \<le> j \<and> j < i" by simp
      with ih show ?thesis by blast
    qed
    with ih show ?thesis by simp
  qed
qed


lemma gettemp_loop_filter:
  "\<forall>i\<in>set rs. i < RISCV_REGISTER_COUNT \<Longrightarrow>
   gettemp_loop p rs =
     (case filter (\<lambda>i. \<not> in_use p i) rs of
        [] \<Rightarrow> Inl Out_of_temporaries
      | i # _ \<Rightarrow> Inr (i, p\<lparr>writes_xreg := (writes_xreg p)(i := True),
                             in_use := (in_use p)(i := True)\<rparr>))"
  by (induction rs) (auto simp: riscv_program_do_restore_register_def)

lemma riscv_program_gettemp_filter:
  "riscv_program_gettemp p =
     (case filter (\<lambda>i. \<not> in_use p i) [GDB_REGNO_S0 ..< Suc GDB_REGNO_XPR31] of
        [] \<Rightarrow> Inl Out_of_temporaries
      | i # _ \<Rightarrow> Inr (i, p\<lparr>writes_xreg := (writes_xreg p)(i := True),
                             in_use := (in_use p)(i := True)\<rparr>))"
  unfolding riscv_program_gettemp_def
  by (rule gettemp_loop_filter) (simp add: RISCV_REGISTER_COUNT_def GDB_REGNO_XPR31_def)

lemma gettemp_Inr:
  assumes "riscv_program_gettemp p = Inr (r, p')"
  shows "\<not> in_use p r" "GDB_REGNO_S0 \<le> r" "r \<le> GDB_REGNO_XPR31"
    "\<forall>j. GDB_REGNO_S0 \<le> j \<and> j < r \<longrightarrow> in_use p j"
    "p' = p\<lparr>writes_xreg := (writes_xreg p)(r := True), in_use := (in_use p)(r := True)\<rparr>"
proof -
  from assms obtain rest where
    f: "filter (\<lambda>i. \<not> in_use p i) [GDB_REGNO_S0 ..< Suc GDB_REGNO_XPR31] = r # rest"
    and p': "p' = p\<lparr>writes_xreg := (writes_xreg p)(r := True), in_use := (in_use p)(r := True)\<rparr>"
    by (auto simp: riscv_program_gettemp_filter split: list.splits)
  from filter_upt_first [OF f]
  show "\<not> in_use p r" "GDB_REGNO_S0 \<le> r" "r \<le> GDB_REGNO_XPR31"
    "\<forall>j. GDB_REGNO_S0 \<le> j \<and> j < r \<longrightarrow> in_use p j"
    by auto
  show "p' = p\<lparr>writes_xreg := (writes_xreg p)(r := True), in_use := (in_use p)(r := True)\<rparr>"
    by (rule p')
qed

lemma gettemp_exhausted:
  "riscv_program_gettemp p = Inl Out_of_temporaries \<longleftrightarrow>
   (\<forall>i. GDB_REGNO_S0 \<le> i \<and> i \<le> GDB_REGNO_XPR31 \<longrightarrow> in_use p i)"
proof -
  have "riscv_program_gettemp p = Inl Out_of_temporaries \<longleftrightarrow>
        filter (\<lambda>i. \<not> in_use p i) [GDB_REGNO_S0 ..< Suc GDB_REGNO_XPR31] = []"
    by (simp add: riscv_program_gettemp_filter split: list.splits)
  also have "\<dots> \<longleftrightarrow> (\<forall>i\<in>set [GDB_REGNO_S0 ..< Suc GDB_REGNO_XPR31]. in_use p i)"
    by (simp only: filter_empty_conv not_not)
  also have "\<dots> \<longleftrightarrow> (\<forall>i. GDB_REGNO_S0 \<le> i \<and> i \<le> GDB_REGNO_XPR31 \<longrightarrow> in_use p i)"
    by (simp only: set_upt atLeastLessThan_iff less_Suc_eq_le Ball_def)
  finally show ?thesis .
qed

lemma gettemp_after_release:
  assumes "riscv_program_gettemp p = Inr (r, p1)"
  shows "\<exists>p2 p3. riscv_program_puttemp p1 r = Inr p2 \<and> riscv_program_gettemp p2 = Inr (r, p3)"
proof -
  note g = gettemp_Inr [OF assms]
  let ?p2 = "p1\<lparr>in_use := (in_use p1)(r := False)\<rparr>"
  from g(3) have put: "riscv_program_puttemp p1 r = Inr ?p2"
    by (simp add: riscv_program_puttemp_def RISCV_REGISTER_COUNT_def GDB_REGNO_XPR31_def)
  from g(1) g(5) have same: "in_use ?p2 = in_use p"
    by (auto simp: fun_eq_iff)
  from assms obtain rest where
    "filter (\<lambda>i. \<not> in_use p i) [GDB_REGNO_S0 ..< Suc GDB_REGNO_XPR31] = r # rest"
    by (auto simp: riscv_program_gettemp_filter split: list.splits)
  with same have "\<exists>p3. riscv_program_gettemp ?p2 = Inr (r, p3)"
    by (simp add: riscv_program_gettemp_filter)
  with put show ?thesis by blast
qed


text \<open>
  Claim C7. \<open>riscv_program_gettemp\<close> scans the registers S0 to X31 in ascending order and
  returns the first one that is not in use, marked in use and dirtied. So the register it
  returns was not in use, every register from S0 below it was; a second allocation right
  after it returns another register; releasing the register and allocating again returns
  the same register; and the call is fatal exactly when every register from S0 to X31 is
  in use.
\<close>

theorem riscv_program_gettemp_contract:
  "riscv_program_gettemp p =
     (case filter (\<lambda>i. \<not> in_use p i) [GDB_REGNO_S0 ..< Suc GDB_REGNO_XPR31] of
        [] \<Rightarrow> Inl Out_of_temporaries
      | i # _ \<Rightarrow> Inr (i, p\<lparr>writes_xreg := (writes_xreg p)(i := True),
                             in_use := (in_use p)(i := True)\<rparr>))
   \<and> (\<forall>r p1. riscv_program_gettemp p = Inr (r, p1) \<longrightarrow>
         \<not> in_use p r \<and> GDB_REGNO_S0 \<le> r \<and> r \<le> GDB_REGNO_XPR31
         \<and> (\<forall>j. GDB_REGNO_S0 \<le> j \<and> j < r \<longrightarrow> in_use p j)
         \<and> in_use p1 r \<and> writes_xreg p1 r
         \<and> (\<forall>r2 p2. riscv_program_gettemp p1 = Inr (r2, p2) \<longrightarrow> r2 \<noteq> r)
         \<and> (\<exists>p2 p3. riscv_program_puttemp p1 r = Inr p2
                      \<and> riscv_program_gettemp p2 = Inr (r, p3)))
   \<and> ((\<forall>i. GDB_REGNO_S0 \<le> i \<and> i \<le> GDB_REGNO_XPR31 \<longrightarrow> in_use p i)
        \<longrightarrow> riscv_program_gettemp p = Inl Out_of_temporaries)
   \<and> ((\<exists>i. GDB_REGNO_S0 \<le> i \<and> i \<le> GDB_REGNO_XPR31 \<and> \<not> in_use p i)
        \<longrightarrow> (\<exists>r p1. riscv_program_gettemp p = Inr (r, p1)))"
proof (intro conjI allI impI)
  show "riscv_program_gettemp p =
     (case filter (\<lambda>i. \<not> in_use p i) [GDB_REGNO_S0 ..< Suc GDB_REGNO_XPR31] of
        [] \<Rightarrow> Inl Out_of_temporaries
      | i # _ \<Rightarrow> Inr (i, p\<lparr>writes_xreg := (writes_xreg p)(i := True),
                             in_use := (in_use p)(i := True)\<rparr>))"
    by (rule riscv_program_gettemp_filter)
next
  fix r p1
  assume g: "riscv_program_gettemp p = Inr (r, p1)"
  note f = gettemp_Inr [OF g]
  show "\<not> in_use p r" by (rule f(1))
  show "GDB_REGNO_S0 \<le> r" by (rule f(2))
  show "r \<le> GDB_REGNO_XPR31" by (rule f(3))
  show "in_use p1 r" by (simp add: f(5))
  show "writes_xreg p1 r" by (simp add: f(5))
  show "\<exists>p2 p3. riscv_program_puttemp p1 r = Inr p2 \<and> riscv_program_gettemp p2 = Inr (r, p3)"
    by (rule gettemp_after_release [OF g])
  {
    fix j
    assume "GDB_REGNO_S0 \<le> j \<and> j < r"
    with f(4) show "in_use p j" by blast
  }
  {
    fix r2 p2
    assume g2: "riscv_program_gettemp p1 = Inr (r2, p2)"
    have "in_use p1 r" by (simp add: f(5))
    moreover have "\<not> in_use p1 r2" by (rule gettemp_Inr(1) [OF g2])
    ultimately show "r2 \<noteq> r" by blast
  }
next
  assume "\<forall>i. GDB_REGNO_S0 \<le> i \<and> i \<le> GDB_REGNO_XPR31 \<longrightarrow> in_use p i"
  then show "riscv_program_gettemp p = Inl Out_of_temporaries"
    by (simp only: gettemp_exhausted)
next
  assume free: "\<exists>i. GDB_REGNO_S0 \<le> i \<and> i \<le> GDB_REGNO_XPR31 \<and> \<not> in_use p i"
  then have ne: "riscv_program_gettemp p \<noteq> Inl Out_of_temporaries"
    by (simp only: gettemp_exhausted) blast
  show "\<exists>r p1. riscv_program_gettemp p = Inr (r, p1)"
  proof (cases "filter (\<lambda>i. \<not> in_use p i) [GDB_REGNO_S0 ..< Suc GDB_REGNO_XPR31]")
    case Nil
    then have "riscv_program_gettemp p = Inl Out_of_temporaries"
      by (simp only: riscv_program_gettemp_filter list.case)
    with ne show ?thesis by contradiction
  next
    case (Cons i rest)
    then have "riscv_program_gettemp p =
        Inr (i, p\<lparr>writes_xreg := (writes_xreg p)(i := True), in_use := (in_use p)(i := True)\<rparr>)"
      by (simp only: riscv_program_gettemp_filter list.case)
    then show ?thesis by blast
  qed
qed

lemma gettemp_init_eval:
  "riscv_program_gettemp (riscv_program_init \<lparr>riscv_xlen = 64, riscv_debug_buffer_size = 16\<rparr>)
     = Inr (8, (riscv_program_init \<lparr>riscv_xlen = 64, riscv_debug_buffer_size = 16\<rparr>)
                 \<lparr>writes_xreg := (\<lambda>_. False)(8 := True), in_use := (\<lambda>_. False)(8 := True)\<rparr>)"
  by (simp add: riscv_program_gettemp_filter riscv_program_init_def GDB_REGNO_S0_def
      GDB_REGNO_XPR31_def upt_conv_Cons)

theorem riscv_program_gettemp_contract_witness:
  "\<exists>p1. riscv_program_gettemp (riscv_program_init \<lparr>riscv_xlen = 64, riscv_debug_buffer_size = 16\<rparr>)
            = Inr (8, p1)
        \<and> \<not> in_use (riscv_program_init \<lparr>riscv_xlen = 64, riscv_debug_buffer_size = 16\<rparr>) 8
        \<and> in_use p1 8 \<and> writes_xreg p1 8
        \<and> (\<exists>p2 p3. riscv_program_puttemp p1 8 = Inr p2 \<and> riscv_program_gettemp p2 = Inr (8, p3))"
  using riscv_program_gettemp_contract
          [of "riscv_program_init \<lparr>riscv_xlen = 64, riscv_debug_buffer_size = 16\<rparr>"]
        gettemp_init_eval
  by blast

subsection \<open>Address-relative loads and stores\<close>

lemmas emit_defs =
  riscv_program_insert_def riscv_program_lui_def riscv_program_addi_def
  riscv_program_lah_def riscv_program_lal_def or_fail_def Let_def

lemma gah_zero_iff: "riscv_program_gah a = 0 \<longleftrightarrow> 0 \<le> sint a \<and> sint a < 4096"
proof -
  have "riscv_program_gah a = 0 \<longleftrightarrow> sint (riscv_program_gah a) = 0"
    by (metis signed_eq_0_iff)
  also have "\<dots> \<longleftrightarrow> sint a div 4096 = 0"
    by (simp add: riscv_program_gah_def sint_signed_drop_bit_eq drop_bit_eq_div)
  also have "\<dots> \<longleftrightarrow> 0 \<le> sint a \<and> sint a < 4096"
    by (auto simp: div_eq_0_iff)
  finally show ?thesis .
qed

lemma sint_gal: "sint (riscv_program_gal a) = (if 0 < sint a then sint a mod 2048 else 0)"
proof (cases "0 < sint a")
  case True
  have "sint (take_bit 11 a) = signed_take_bit 63 (sint a mod 2048)"
    by (simp add: sint_uint uint_take_bit_11_sint)
  also have "\<dots> = sint a mod 2048"
    by (rule signed_take_bit_int_eq_self) (simp_all add: order_trans [of _ 0] less_trans [of _ 2048])
  finally show ?thesis
    using True by (simp add: riscv_program_gal_def word_sless_alt and_0x7FF_take_bit)
next
  case False
  then show ?thesis
    by (simp add: riscv_program_gal_def word_sless_alt)
qed

lemma gah_of_int: "riscv_program_gah a = word_of_int (sint a div 4096)"
proof -
  have "sint (riscv_program_gah a) = sint a div 4096"
    by (simp add: riscv_program_gah_def sint_signed_drop_bit_eq drop_bit_eq_div)
  then have "word_of_int (sint (riscv_program_gah a)) = (word_of_int (sint a div 4096) :: 64 word)"
    by simp
  then show ?thesis by simp
qed

lemma load_upper_zero:
  assumes "riscv_program_gah a = 0"
    and "instruction_count p < riscv_debug_buffer_size (target p)"
  shows "riscv_program_ld p d a = Inr (ERROR_OK,
           p\<lparr>debug_buffer := (debug_buffer p)
                [instruction_count p := LD d GDB_REGNO_X0 (sint (riscv_program_gal a))],
             instruction_count := instruction_count p + 1\<rparr>)"
    and "riscv_program_lw p d a = Inr (ERROR_OK,
           p\<lparr>debug_buffer := (debug_buffer p)
                [instruction_count p := LW d GDB_REGNO_X0 (sint (riscv_program_gal a))],
             instruction_count := instruction_count p + 1\<rparr>)"
    and "riscv_program_lh p d a = Inr (ERROR_OK,
           p\<lparr>debug_buffer := (debug_buffer p)
                [instruction_count p := LH d GDB_REGNO_X0 (sint (riscv_program_gal a))],
             instruction_count := instruction_count p + 1\<rparr>)"
    and "riscv_program_lb p d a = Inr (ERROR_OK,
           p\<lparr>debug_buffer := (debug_buffer p)
                [instruction_count p := LB d GDB_REGNO_X0 (sint (riscv_program_gal a))],
             instruction_count := instruction_count p + 1\<rparr>)"
  using assms
  by (simp_all add: riscv_program_ld_def riscv_program_lw_def riscv_program_lh_def
      riscv_program_lb_def emit_defs)

lemma load_upper_nonzero:
  assumes "riscv_program_gah a \<noteq> 0"
    and "instruction_count p + 2 \<le> riscv_debug_buffer_size (target p)"
  shows "riscv_program_ld p d a = Inr (ERROR_OK,
           p\<lparr>debug_buffer := (debug_buffer p)
                [instruction_count p := LUI d (sint (ucast (riscv_program_gah a) :: 32 word)),
                 instruction_count p + 1 := LD d d (sint (riscv_program_gal a))],
             instruction_count := instruction_count p + 2\<rparr>)"
    and "riscv_program_lw p d a = Inr (ERROR_OK,
           p\<lparr>debug_buffer := (debug_buffer p)
                [instruction_count p := LUI d (sint (ucast (riscv_program_gah a) :: 32 word)),
                 instruction_count p + 1 := LW d d (sint (riscv_program_gal a))],
             instruction_count := instruction_count p + 2\<rparr>)"
    and "riscv_program_lh p d a = Inr (ERROR_OK,
           p\<lparr>debug_buffer := (debug_buffer p)
                [instruction_count p := LUI d (sint (ucast (riscv_program_gah a) :: 32 word)),
                 instruction_count p + 1 := LH d d (sint (riscv_program_gal a))],
             instruction_count := instruction_count p + 2\<rparr>)"
    and "riscv_program_lb p d a = Inr (ERROR_OK,
           p\<lparr>debug_buffer := (debug_buffer p)
                [instruction_count p := LUI d (sint (ucast (riscv_program_gah a) :: 32 word)),
                 instruction_count p + 1 := LB d d (sint (riscv_program_gal a))],
             instruction_count := instruction_count p + 2\<rparr>)"
  using assms
  by (simp_all add: riscv_program_ld_def riscv_program_lw_def riscv_program_lh_def
      riscv_program_lb_def emit_defs)

lemma store_upper_zero:
  assumes "riscv_program_gah a = 0"
    and "instruction_count p < riscv_debug_buffer_size (target p)"
  shows "riscv_program_sd p d a = Inr (ERROR_OK,
           p\<lparr>debug_buffer := (debug_buffer p)
                [instruction_count p := SD d GDB_REGNO_X0 (sint (riscv_program_gal a))],
             instruction_count := instruction_count p + 1,
             in_use := (in_use p)(GDB_REGNO_X0 := False),
             writes_memory := True\<rparr>)"
    and "riscv_program_sw p d a = Inr (ERROR_OK,
           p\<lparr>debug_buffer := (debug_buffer p)
                [instruction_count p := SW d GDB_REGNO_X0 (sint (riscv_program_gal a))],
             instruction_count := instruction_count p + 1,
             in_use := (in_use p)(GDB_REGNO_X0 := False),
             writes_memory := True\<rparr>)"
    and "riscv_program_sh p d a = Inr (ERROR_OK,
           p\<lparr>debug_buffer := (debug_buffer p)
                [instruction_count p := SH d GDB_REGNO_X0 (sint (riscv_program_gal a))],
             instruction_count := instruction_count p + 1,
             in_use := (in_use p)(GDB_REGNO_X0 := False),
             writes_memory := True\<rparr>)"
    and "riscv_program_sb p d a = Inr (ERROR_OK,
           p\<lparr>debug_buffer := (debug_buffer p)
                [instruction_count p := SB d GDB_REGNO_X0 (sint (riscv_program_gal a))],
             instruction_count := instruction_count p + 1,
             in_use := (in_use p)(GDB_REGNO_X0 := False),
             writes_memory := True\<rparr>)"
  using assms
  by (simp_all add: riscv_program_sd_def riscv_program_sw_def riscv_program_sh_def
      riscv_program_sb_def emit_defs riscv_program_puttemp_def GDB_REGNO_X0_def
      RISCV_REGISTER_COUNT_def)

lemma store_upper_nonzero:
  assumes "riscv_program_gah a \<noteq> 0"
    and "instruction_count p + 2 \<le> riscv_debug_buffer_size (target p)"
    and "riscv_program_gettemp p = Inr (t, p0)"
  shows "riscv_program_sd p d a = Inr (ERROR_OK,
           p\<lparr>debug_buffer := (debug_buffer p)
                [instruction_count p := LUI t (sint (ucast (riscv_program_gah a) :: 32 word)),
                 instruction_count p + 1 := SD d t (sint (riscv_program_gal a))],
             instruction_count := instruction_count p + 2,
             writes_xreg := (writes_xreg p)(t := True),
             writes_memory := True\<rparr>)"
    and "riscv_program_sw p d a = Inr (ERROR_OK,
           p\<lparr>debug_buffer := (debug_buffer p)
                [instruction_count p := LUI t (sint (ucast (riscv_program_gah a) :: 32 word)),
                 instruction_count p + 1 := SW d t (sint (riscv_program_gal a))],
             instruction_count := instruction_count p + 2,
             writes_xreg := (writes_xreg p)(t := True),
             writes_memory := True\<rparr>)"
    and "riscv_program_sh p d a = Inr (ERROR_OK,
           p\<lparr>debug_buffer := (debug_buffer p)
                [instruction_count p := LUI t (sint (ucast (riscv_program_gah a) :: 32 word)),
                 instruction_count p + 1 := SH d t (sint (riscv_program_gal a))],
             instruction_count := instruction_count p + 2,
             writes_xreg := (writes_xreg p)(t := True),
             writes_memory := True\<rparr>)"
    and "riscv_program_sb p d a = Inr (ERROR_OK,
           p\<lparr>debug_buffer := (debug_buffer p)
                [instruction_count p := LUI t (sint (ucast (riscv_program_gah a) :: 32 word)),
                 instruction_count p + 1 := SB d t (sint (riscv_program_gal a))],
             instruction_count := instruction_count p + 2,
             writes_xreg := (writes_xreg p)(t := True),
             writes_memory := True\<rparr>)"
proof -
  note g = gettemp_Inr [OF assms(3)]
  from g(3) have t: "t < RISCV_REGISTER_COUNT"
    by (simp add: RISCV_REGISTER_COUNT_def GDB_REGNO_XPR31_def)
  from g(1) have idem: "(in_use p)(t := False) = in_use p"
    by (auto simp: fun_eq_iff)
  show "riscv_program_sd p d a = Inr (ERROR_OK,
           p\<lparr>debug_buffer := (debug_buffer p)
                [instruction_count p := LUI t (sint (ucast (riscv_program_gah a) :: 32 word)),
                 instruction_count p + 1 := SD d t (sint (riscv_program_gal a))],
             instruction_count := instruction_count p + 2,
             writes_xreg := (writes_xreg p)(t := True),
             writes_memory := True\<rparr>)"
    using assms(1,2) t idem
    by (simp add: riscv_program_sd_def assms(3) g(5) emit_defs riscv_program_puttemp_def)
  show "riscv_program_sw p d a = Inr (ERROR_OK,
           p\<lparr>debug_buffer := (debug_buffer p)
                [instruction_count p := LUI t (sint (ucast (riscv_program_gah a) :: 32 word)),
                 instruction_count p + 1 := SW d t (sint (riscv_program_gal a))],
             instruction_count := instruction_count p + 2,
             writes_xreg := (writes_xreg p)(t := True),
             writes_memory := True\<rparr>)"
    using assms(1,2) t idem
    by (simp add: riscv_program_sw_def assms(3) g(5) emit_defs riscv_program_puttemp_def)
  show "riscv_program_sh p d a = Inr (ERROR_OK,
           p\<lparr>debug_buffer := (debug_buffer p)
                [instruction_count p := LUI t (sint (ucast (riscv_program_gah a) :: 32 word)),
                 instruction_count p + 1 := SH d t (sint (riscv_program_gal a))],
             instruction_count := instruction_count p + 2,
             writes_xreg := (writes_xreg p)(t := True),
             writes_memory := True\<rparr>)"
    using assms(1,2) t idem
    by (simp add: riscv_program_sh_def assms(3) g(5) emit_defs riscv_program_puttemp_def)
  show "riscv_program_sb p d a = Inr (ERROR_OK,
           p\<lparr>debug_buffer := (debug_buffer p)
                [instruction_count p := LUI t (sint (ucast (riscv_program_gah a) :: 32 word)),
                 instruction_count p + 1 := SB d t (sint (riscv_program_gal a))],
             instruction_count := instruction_count p + 2,
             writes_xreg := (writes_xreg p)(t := True),
             writes_memory := True\<rparr>)"
    using assms(1,2) t idem
    by (simp add: riscv_program_sb_def assms(3) g(5) emit_defs riscv_program_puttemp_def)
qed


text \<open>
  What the address-relative macros emit. Let \<open>n\<close> be the instruction count. When the upper part of the
  address is 0 and the buffer has room for one word, each of \<open>ld\<close>, \<open>lw\<close>, \<open>lh\<close>, \<open>lb\<close>,
  \<open>sd\<close>, \<open>sw\<close>, \<open>sh\<close>, \<open>sb\<close> emits exactly one instruction, at index \<open>n\<close>, with X0 as
  base and the lower part \<open>a & 0x7FF\<close> as displacement; the lower part is the address
  itself exactly when the address is below \<open>0x800\<close>. When the upper part is not 0 and the
  buffer has room for two words, each emits exactly two instructions: a
  load-upper-immediate of the upper part (cut to 32 bits) into \<open>d\<close> for a load, into the
  register that \<open>riscv_program_gettemp\<close> returns for a store, and then the access with
  that register as base and the lower part as displacement. The store's temporary was
  not in use before and is not in use afterwards, it stays marked dirtied, and
  \<open>writes_memory\<close> is set.
\<close>

theorem address_relative_load_store_emission:
  "(riscv_program_gah a = 0 \<and> instruction_count p < riscv_debug_buffer_size (target p) \<longrightarrow>
      (let n = instruction_count p;
           off = sint (riscv_program_gal a);
           one = (\<lambda>i. p\<lparr>debug_buffer := (debug_buffer p)[n := i], instruction_count := n + 1\<rparr>);
           one_store = (\<lambda>i. (one i)\<lparr>in_use := (in_use p)(GDB_REGNO_X0 := False),
                                     writes_memory := True\<rparr>)
       in riscv_program_ld p d a = Inr (ERROR_OK, one (LD d GDB_REGNO_X0 off))
        \<and> riscv_program_lw p d a = Inr (ERROR_OK, one (LW d GDB_REGNO_X0 off))
        \<and> riscv_program_lh p d a = Inr (ERROR_OK, one (LH d GDB_REGNO_X0 off))
        \<and> riscv_program_lb p d a = Inr (ERROR_OK, one (LB d GDB_REGNO_X0 off))
        \<and> riscv_program_sd p d a = Inr (ERROR_OK, one_store (SD d GDB_REGNO_X0 off))
        \<and> riscv_program_sw p d a = Inr (ERROR_OK, one_store (SW d GDB_REGNO_X0 off))
        \<and> riscv_program_sh p d a = Inr (ERROR_OK, one_store (SH d GDB_REGNO_X0 off))
        \<and> riscv_program_sb p d a = Inr (ERROR_OK, one_store (SB d GDB_REGNO_X0 off))
        \<and> off = sint a mod 2048
        \<and> (off = sint a \<longleftrightarrow> sint a < 2048)))
   \<and> (riscv_program_gah a \<noteq> 0
        \<and> instruction_count p + 2 \<le> riscv_debug_buffer_size (target p) \<longrightarrow>
      (let n = instruction_count p;
           up = sint (ucast (riscv_program_gah a) :: 32 word);
           off = sint (riscv_program_gal a);
           two = (\<lambda>i j. p\<lparr>debug_buffer := (debug_buffer p)[n := i, n + 1 := j],
                           instruction_count := n + 2\<rparr>);
           two_store = (\<lambda>t i j. (two i j)\<lparr>writes_xreg := (writes_xreg p)(t := True),
                                         writes_memory := True\<rparr>)
       in riscv_program_ld p d a = Inr (ERROR_OK, two (LUI d up) (LD d d off))
        \<and> riscv_program_lw p d a = Inr (ERROR_OK, two (LUI d up) (LW d d off))
        \<and> riscv_program_lh p d a = Inr (ERROR_OK, two (LUI d up) (LH d d off))
        \<and> riscv_program_lb p d a = Inr (ERROR_OK, two (LUI d up) (LB d d off))
        \<and> (\<forall>t p0. riscv_program_gettemp p = Inr (t, p0) \<longrightarrow>
              \<not> in_use p t
            \<and> riscv_program_sd p d a = Inr (ERROR_OK, two_store t (LUI t up) (SD d t off))
            \<and> riscv_program_sw p d a = Inr (ERROR_OK, two_store t (LUI t up) (SW d t off))
            \<and> riscv_program_sh p d a = Inr (ERROR_OK, two_store t (LUI t up) (SH d t off))
            \<and> riscv_program_sb p d a = Inr (ERROR_OK, two_store t (LUI t up) (SB d t off)))
        \<and> off = (if 0 < sint a then sint a mod 2048 else 0)))"
proof (intro conjI impI)
  assume h: "riscv_program_gah a = 0 \<and> instruction_count p < riscv_debug_buffer_size (target p)"
  then have range: "0 \<le> sint a" "sint a < 4096"
    by (simp_all add: gah_zero_iff)
  have off: "sint (riscv_program_gal a) = sint a mod 2048"
  proof (cases "sint a = 0")
    case True
    then show ?thesis by (simp add: sint_gal)
  next
    case False
    with range show ?thesis by (simp add: sint_gal)
  qed
  have small: "sint a mod 2048 = sint a \<longleftrightarrow> sint a < 2048"
  proof (cases "sint a < 2048")
    case True
    with range show ?thesis by simp
  next
    case False
    have "sint a mod 2048 < 2048" by simp
    with False show ?thesis by linarith
  qed
  from h show "let n = instruction_count p;
           off = sint (riscv_program_gal a);
           one = (\<lambda>i. p\<lparr>debug_buffer := (debug_buffer p)[n := i], instruction_count := n + 1\<rparr>);
           one_store = (\<lambda>i. (one i)\<lparr>in_use := (in_use p)(GDB_REGNO_X0 := False),
                                     writes_memory := True\<rparr>)
       in riscv_program_ld p d a = Inr (ERROR_OK, one (LD d GDB_REGNO_X0 off))
        \<and> riscv_program_lw p d a = Inr (ERROR_OK, one (LW d GDB_REGNO_X0 off))
        \<and> riscv_program_lh p d a = Inr (ERROR_OK, one (LH d GDB_REGNO_X0 off))
        \<and> riscv_program_lb p d a = Inr (ERROR_OK, one (LB d GDB_REGNO_X0 off))
        \<and> riscv_program_sd p d a = Inr (ERROR_OK, one_store (SD d GDB_REGNO_X0 off))
        \<and> riscv_program_sw p d a = Inr (ERROR_OK, one_store (SW d GDB_REGNO_X0 off))
        \<and> riscv_program_sh p d a = Inr (ERROR_OK, one_store (SH d GDB_REGNO_X0 off))
        \<and> riscv_program_sb p d a = Inr (ERROR_OK, one_store (SB d GDB_REGNO_X0 off))
        \<and> off = sint a mod 2048
        \<and> (off = sint a \<longleftrightarrow> sint a < 2048)"
    unfolding Let_def
    by (simp add: load_upper_zero store_upper_zero off small)
next
  assume h: "riscv_program_gah a \<noteq> 0
        \<and> instruction_count p + 2 \<le> riscv_debug_buffer_size (target p)"
  then have h1: "riscv_program_gah a \<noteq> 0"
    and h2: "instruction_count p + 2 \<le> riscv_debug_buffer_size (target p)"
    by simp_all
  show "let n = instruction_count p;
           up = sint (ucast (riscv_program_gah a) :: 32 word);
           off = sint (riscv_program_gal a);
           two = (\<lambda>i j. p\<lparr>debug_buffer := (debug_buffer p)[n := i, n + 1 := j],
                           instruction_count := n + 2\<rparr>);
           two_store = (\<lambda>t i j. (two i j)\<lparr>writes_xreg := (writes_xreg p)(t := True),
                                         writes_memory := True\<rparr>)
       in riscv_program_ld p d a = Inr (ERROR_OK, two (LUI d up) (LD d d off))
        \<and> riscv_program_lw p d a = Inr (ERROR_OK, two (LUI d up) (LW d d off))
        \<and> riscv_program_lh p d a = Inr (ERROR_OK, two (LUI d up) (LH d d off))
        \<and> riscv_program_lb p d a = Inr (ERROR_OK, two (LUI d up) (LB d d off))
        \<and> (\<forall>t p0. riscv_program_gettemp p = Inr (t, p0) \<longrightarrow>
              \<not> in_use p t
            \<and> riscv_program_sd p d a = Inr (ERROR_OK, two_store t (LUI t up) (SD d t off))
            \<and> riscv_program_sw p d a = Inr (ERROR_OK, two_store t (LUI t up) (SW d t off))
            \<and> riscv_program_sh p d a = Inr (ERROR_OK, two_store t (LUI t up) (SH d t off))
            \<and> riscv_program_sb p d a = Inr (ERROR_OK, two_store t (LUI t up) (SB d t off)))
        \<and> off = (if 0 < sint a then sint a mod 2048 else 0)"
    unfolding Let_def
  proof (intro conjI allI impI)
    fix t p0
    assume g: "riscv_program_gettemp p = Inr (t, p0)"
    show "\<not> in_use p t" by (rule gettemp_Inr(1) [OF g])
    show "riscv_program_sd p d a = Inr (ERROR_OK,
        p\<lparr>debug_buffer := (debug_buffer p)
             [instruction_count p := LUI t (sint (ucast (riscv_program_gah a) :: 32 word)),
              instruction_count p + 1 := SD d t (sint (riscv_program_gal a))],
           instruction_count := instruction_count p + 2,
           writes_xreg := (writes_xreg p)(t := True), writes_memory := True\<rparr>)"
      by (rule store_upper_nonzero(1) [OF h1 h2 g])
    show "riscv_program_sw p d a = Inr (ERROR_OK,
        p\<lparr>debug_buffer := (debug_buffer p)
             [instruction_count p := LUI t (sint (ucast (riscv_program_gah a) :: 32 word)),
              instruction_count p + 1 := SW d t (sint (riscv_program_gal a))],
           instruction_count := instruction_count p + 2,
           writes_xreg := (writes_xreg p)(t := True), writes_memory := True\<rparr>)"
      by (rule store_upper_nonzero(2) [OF h1 h2 g])
    show "riscv_program_sh p d a = Inr (ERROR_OK,
        p\<lparr>debug_buffer := (debug_buffer p)
             [instruction_count p := LUI t (sint (ucast (riscv_program_gah a) :: 32 word)),
              instruction_count p + 1 := SH d t (sint (riscv_program_gal a))],
           instruction_count := instruction_count p + 2,
           writes_xreg := (writes_xreg p)(t := True), writes_memory := True\<rparr>)"
      by (rule store_upper_nonzero(3) [OF h1 h2 g])
    show "riscv_program_sb p d a = Inr (ERROR_OK,
        p\<lparr>debug_buffer := (debug_buffer p)
             [instruction_count p := LUI t (sint (ucast (riscv_program_gah a) :: 32 word)),
              instruction_count p + 1 := SB d t (sint (riscv_program_gal a))],
           instruction_count := instruction_count p + 2,
           writes_xreg := (writes_xreg p)(t := True), writes_memory := True\<rparr>)"
      by (rule store_upper_nonzero(4) [OF h1 h2 g])
  qed (simp_all add: load_upper_nonzero [OF h1 h2] sint_gal)
qed


lemma init_fields:
  "instruction_count (riscv_program_init tgt) = 0"
  "target (riscv_program_init tgt) = tgt"
  "writes_memory (riscv_program_init tgt) = False"
  "length (debug_buffer (riscv_program_init tgt)) = RISCV_MAX_DEBUG_BUFFER_SIZE"
  "writes_xreg (riscv_program_init tgt) = (\<lambda>_. False)"
  "in_use (riscv_program_init tgt) = (\<lambda>_. False)"
  "target_xlen (riscv_program_init tgt) = riscv_xlen tgt"
  by (simp_all add: riscv_program_init_def)

theorem address_relative_load_store_emission_witness:
  "riscv_program_ld (riscv_program_init \<lparr>riscv_xlen = 64, riscv_debug_buffer_size = 16\<rparr>) 10 0x500
     = Inr (ERROR_OK, (riscv_program_init \<lparr>riscv_xlen = 64, riscv_debug_buffer_size = 16\<rparr>)
         \<lparr>debug_buffer :=
            (debug_buffer (riscv_program_init \<lparr>riscv_xlen = 64, riscv_debug_buffer_size = 16\<rparr>))
              [0 := LD 10 GDB_REGNO_X0 0x500],
          instruction_count := 1\<rparr>)
   \<and> riscv_program_ld (riscv_program_init \<lparr>riscv_xlen = 64, riscv_debug_buffer_size = 16\<rparr>) 10 0x2000
     = Inr (ERROR_OK, (riscv_program_init \<lparr>riscv_xlen = 64, riscv_debug_buffer_size = 16\<rparr>)
         \<lparr>debug_buffer :=
            (debug_buffer (riscv_program_init \<lparr>riscv_xlen = 64, riscv_debug_buffer_size = 16\<rparr>))
              [0 := LUI 10 2, 1 := LD 10 10 0],
          instruction_count := 2\<rparr>)
   \<and> riscv_program_sd (riscv_program_init \<lparr>riscv_xlen = 64, riscv_debug_buffer_size = 16\<rparr>) 10 0x2000
     = Inr (ERROR_OK, (riscv_program_init \<lparr>riscv_xlen = 64, riscv_debug_buffer_size = 16\<rparr>)
         \<lparr>debug_buffer :=
            (debug_buffer (riscv_program_init \<lparr>riscv_xlen = 64, riscv_debug_buffer_size = 16\<rparr>))
              [0 := LUI 8 2, 1 := SD 10 8 0],
          instruction_count := 2,
          writes_xreg := (\<lambda>_. False)(8 := True),
          writes_memory := True\<rparr>)"
proof -
  have z: "riscv_program_gah 0x500 = 0" and nz: "riscv_program_gah 0x2000 = 2"
    by (simp_all add: gah_of_int)
  have o: "sint (riscv_program_gal 0x500) = 0x500" "sint (riscv_program_gal 0x2000) = 0"
    by (simp_all add: sint_gal)
  show ?thesis
    using address_relative_load_store_emission
            [of "0x500" "riscv_program_init \<lparr>riscv_xlen = 64, riscv_debug_buffer_size = 16\<rparr>" 10]
          address_relative_load_store_emission
            [of "0x2000" "riscv_program_init \<lparr>riscv_xlen = 64, riscv_debug_buffer_size = 16\<rparr>" 10]
    by (simp add: Let_def z nz o init_fields gettemp_init_eval)
qed

text \<open>
  Claim C4. The macros split the address into the upper part, bits 12 and up, and the
  lower part, bits 0 to 10 (the mask is \<open>0x7FF\<close>), so bit 11 of the address reaches no
  instruction. At address \<open>0x900\<close> the upper part is 0 and the word load on a fresh
  program emits the single instruction \<open>lw(d, X0, 0x100)\<close>: X0 is the base, but the
  displacement is \<open>0x100\<close>, not the raw address \<open>0x900\<close> that the claim states. At
  address \<open>0x2900\<close> the double-word load emits \<open>lui(d, 2)\<close> and \<open>ld(d, d, 0x100)\<close>, which
  reaches \<open>0x2100\<close>.
\<close>

theorem address_relative_load_loses_bit_11:
  "riscv_program_gah 0x900 = 0
   \<and> riscv_program_lw (riscv_program_init \<lparr>riscv_xlen = 32, riscv_debug_buffer_size = 16\<rparr>) 10 0x900
     = Inr (ERROR_OK, (riscv_program_init \<lparr>riscv_xlen = 32, riscv_debug_buffer_size = 16\<rparr>)
         \<lparr>debug_buffer :=
            (debug_buffer (riscv_program_init \<lparr>riscv_xlen = 32, riscv_debug_buffer_size = 16\<rparr>))
              [0 := LW 10 GDB_REGNO_X0 0x100],
          instruction_count := 1\<rparr>)
   \<and> LW 10 GDB_REGNO_X0 0x100 \<noteq> LW 10 GDB_REGNO_X0 0x900
   \<and> riscv_program_gah 0x2900 = 2
   \<and> riscv_program_ld (riscv_program_init \<lparr>riscv_xlen = 64, riscv_debug_buffer_size = 16\<rparr>) 10 0x2900
     = Inr (ERROR_OK, (riscv_program_init \<lparr>riscv_xlen = 64, riscv_debug_buffer_size = 16\<rparr>)
         \<lparr>debug_buffer :=
            (debug_buffer (riscv_program_init \<lparr>riscv_xlen = 64, riscv_debug_buffer_size = 16\<rparr>))
              [0 := LUI 10 2, 1 := LD 10 10 0x100],
          instruction_count := 2\<rparr>)"
proof -
  have z: "riscv_program_gah 0x900 = 0" and nz: "riscv_program_gah 0x2900 = 2"
    by (simp_all add: gah_of_int)
  have o: "sint (riscv_program_gal 0x900) = 0x100" "sint (riscv_program_gal 0x2900) = 0x100"
    by (simp_all add: sint_gal)
  show ?thesis
    using load_upper_zero(2)
            [of "0x900" "riscv_program_init \<lparr>riscv_xlen = 32, riscv_debug_buffer_size = 16\<rparr>" 10]
          load_upper_nonzero(1)
            [of "0x2900" "riscv_program_init \<lparr>riscv_xlen = 64, riscv_debug_buffer_size = 16\<rparr>" 10]
    by (simp add: z nz o init_fields)
qed

subsection \<open>The flag writes_memory\<close>

lemma store_sets_writes_memory:
  "riscv_program_swr p d b off = Inr (rc, p') \<Longrightarrow> writes_memory p'"
  "riscv_program_shr p d b off = Inr (rc, p') \<Longrightarrow> writes_memory p'"
  "riscv_program_sbr p d b off = Inr (rc, p') \<Longrightarrow> writes_memory p'"
  "riscv_program_sd p d a = Inr (rc, p') \<Longrightarrow> writes_memory p'"
  "riscv_program_sw p d a = Inr (rc, p') \<Longrightarrow> writes_memory p'"
  "riscv_program_sh p d a = Inr (rc, p') \<Longrightarrow> writes_memory p'"
  "riscv_program_sb p d a = Inr (rc, p') \<Longrightarrow> writes_memory p'"
  by (auto simp: riscv_program_swr_def riscv_program_shr_def riscv_program_sbr_def
      riscv_program_sd_def riscv_program_sw_def riscv_program_sh_def riscv_program_sb_def
      emit_defs riscv_program_puttemp_def split: if_splits sum.splits prod.splits)

lemma address_relative_load_keeps_writes_memory:
  "riscv_program_ld p d a = Inr (rc, p') \<Longrightarrow> writes_memory p' = writes_memory p"
  "riscv_program_lw p d a = Inr (rc, p') \<Longrightarrow> writes_memory p' = writes_memory p"
  "riscv_program_lh p d a = Inr (rc, p') \<Longrightarrow> writes_memory p' = writes_memory p"
  "riscv_program_lb p d a = Inr (rc, p') \<Longrightarrow> writes_memory p' = writes_memory p"
  "riscv_program_lx p d a = Inr (rc, p') \<Longrightarrow> writes_memory p' = writes_memory p"
  by (auto simp: riscv_program_ld_def riscv_program_lw_def riscv_program_lh_def
      riscv_program_lb_def riscv_program_lx_def emit_defs split: if_splits)

text \<open>
  Claim C2. The stores set \<open>writes_memory\<close> and the address-relative loads leave it as it
  is (the two lemmas above), but the register-offset loads \<open>riscv_program_lwr\<close>,
  \<open>riscv_program_lhr\<close> and \<open>riscv_program_lbr\<close> set it as the stores do: on a fresh
  program each of them returns with \<open>writes_memory\<close> true.
\<close>

theorem register_offset_load_sets_writes_memory:
  "\<not> writes_memory (riscv_program_init \<lparr>riscv_xlen = 32, riscv_debug_buffer_size = 16\<rparr>)
   \<and> riscv_program_lwr (riscv_program_init \<lparr>riscv_xlen = 32, riscv_debug_buffer_size = 16\<rparr>) 10 11 0
     = Inr (ERROR_OK, (riscv_program_init \<lparr>riscv_xlen = 32, riscv_debug_buffer_size = 16\<rparr>)
         \<lparr>debug_buffer :=
            (debug_buffer (riscv_program_init \<lparr>riscv_xlen = 32, riscv_debug_buffer_size = 16\<rparr>))
              [0 := LW 10 11 0],
          instruction_count := 1,
          writes_memory := True\<rparr>)
   \<and> riscv_program_lhr (riscv_program_init \<lparr>riscv_xlen = 32, riscv_debug_buffer_size = 16\<rparr>) 10 11 0
     = Inr (ERROR_OK, (riscv_program_init \<lparr>riscv_xlen = 32, riscv_debug_buffer_size = 16\<rparr>)
         \<lparr>debug_buffer :=
            (debug_buffer (riscv_program_init \<lparr>riscv_xlen = 32, riscv_debug_buffer_size = 16\<rparr>))
              [0 := LH 10 11 0],
          instruction_count := 1,
          writes_memory := True\<rparr>)
   \<and> riscv_program_lbr (riscv_program_init \<lparr>riscv_xlen = 32, riscv_debug_buffer_size = 16\<rparr>) 10 11 0
     = Inr (ERROR_OK, (riscv_program_init \<lparr>riscv_xlen = 32, riscv_debug_buffer_size = 16\<rparr>)
         \<lparr>debug_buffer :=
            (debug_buffer (riscv_program_init \<lparr>riscv_xlen = 32, riscv_debug_buffer_size = 16\<rparr>))
              [0 := LB 10 11 0],
          instruction_count := 1,
          writes_memory := True\<rparr>)"
  by (simp add: riscv_program_lwr_def riscv_program_lhr_def riscv_program_lbr_def
      riscv_program_insert_def init_fields)

subsection \<open>What an emission does to the program\<close>

lemma insert_effect:
  assumes "riscv_program_insert p i = Inr (rc, p')"
  shows "rc = ERROR_OK"
    and "instruction_count p < riscv_debug_buffer_size (target p)"
    and "p' = p\<lparr>debug_buffer := (debug_buffer p)[instruction_count p := i],
                 instruction_count := instruction_count p + 1\<rparr>"
  using assms by (auto simp: riscv_program_insert_def split: if_splits)

text \<open>The lemmas below relate the program before and after an emission: the target is
  the same, the instruction count does not go down and stays within the buffer size if
  it was, the dirtied marks only grow, the registers in use only shrink.\<close>

lemma or_fail_Inr:
  assumes "or_fail m k = Inr (rc, p')"
  obtains p1 where "m = Inr (ERROR_OK, p1)" "k p1 = Inr (rc, p')"
  | p1 rc1 where "m = Inr (rc1, p1)" "rc1 \<noteq> ERROR_OK" "rc = ERROR_FAIL" "p' = p1"
  using assms
  by (cases m) (auto simp: or_fail_def split: if_splits)

lemma single_effect:
  assumes "riscv_program_insert (p\<lparr>writes_memory := w\<rparr>) i = Inr (rc, p')"
  shows "rc = ERROR_OK \<and> target p' = target p
     \<and> instruction_count p' = instruction_count p + 1
     \<and> instruction_count p' \<le> riscv_debug_buffer_size (target p')
     \<and> writes_xreg p' = writes_xreg p \<and> in_use p' = in_use p"
  using assms by (auto simp: riscv_program_insert_def split: if_splits)

lemma single_effect':
  assumes "riscv_program_insert p i = Inr (rc, p')"
  shows "rc = ERROR_OK \<and> target p' = target p
     \<and> instruction_count p' = instruction_count p + 1
     \<and> instruction_count p' \<le> riscv_debug_buffer_size (target p')
     \<and> writes_xreg p' = writes_xreg p \<and> in_use p' = in_use p"
  using assms by (auto simp: riscv_program_insert_def split: if_splits)

lemma lah_effect:
  assumes "riscv_program_lah p d a = Inr (rc, p')"
  shows "rc = ERROR_OK \<and> target p' = target p
     \<and> instruction_count p \<le> instruction_count p'
     \<and> (instruction_count p \<le> riscv_debug_buffer_size (target p)
          \<longrightarrow> instruction_count p' \<le> riscv_debug_buffer_size (target p'))
     \<and> writes_xreg p' = writes_xreg p \<and> in_use p' = in_use p"
  using assms
  by (auto simp: riscv_program_lah_def riscv_program_lui_def Let_def
      dest!: single_effect' split: if_splits)

lemma lal_effect:
  assumes "riscv_program_lal p d a = Inr (rc, p')"
  shows "rc = ERROR_OK \<and> target p' = target p
     \<and> instruction_count p \<le> instruction_count p'
     \<and> (instruction_count p \<le> riscv_debug_buffer_size (target p)
          \<longrightarrow> instruction_count p' \<le> riscv_debug_buffer_size (target p'))
     \<and> writes_xreg p' = writes_xreg p \<and> in_use p' = in_use p"
  using assms
  by (auto simp: riscv_program_lal_def riscv_program_addi_def Let_def
      dest!: single_effect' split: if_splits)

lemma load_effect:
  assumes "or_fail (riscv_program_lah p r a) (\<lambda>p1.
           or_fail (riscv_program_insert p1 i) (\<lambda>p2. Inr (ERROR_OK, p2))) = Inr (rc, p')"
  shows "rc = ERROR_OK \<and> target p' = target p
     \<and> instruction_count p \<le> instruction_count p'
     \<and> instruction_count p' \<le> riscv_debug_buffer_size (target p')
     \<and> writes_xreg p' = writes_xreg p \<and> in_use p' = in_use p"
  using assms
  by (auto elim!: or_fail_Inr dest!: lah_effect single_effect')

lemma store_effect:
  assumes "(case (if riscv_program_gah a = 0 then Inr (GDB_REGNO_X0, p)
            else riscv_program_gettemp p) of
        Inl e \<Rightarrow> Inl e
      | Inr (t, p0) \<Rightarrow>
          or_fail (riscv_program_lah p0 t a) (\<lambda>p1.
          or_fail (riscv_program_insert p1 (mk t)) (\<lambda>p2.
          (case riscv_program_puttemp p2 t of
             Inl e \<Rightarrow> Inl e
           | Inr p3 \<Rightarrow> Inr (ERROR_OK, p3\<lparr>writes_memory := True\<rparr>))))) = Inr (rc, p')"
  shows "rc = ERROR_OK \<and> target p' = target p
     \<and> instruction_count p \<le> instruction_count p'
     \<and> instruction_count p' \<le> riscv_debug_buffer_size (target p')
     \<and> (\<forall>r. writes_xreg p r \<longrightarrow> writes_xreg p' r)
     \<and> (\<forall>r. in_use p' r \<longrightarrow> in_use p r)"
proof (cases "riscv_program_gah a = 0")
  case True
  with assms show ?thesis
    by (auto elim!: or_fail_Inr dest!: lah_effect single_effect'
        simp: riscv_program_puttemp_def split: if_splits)
next
  case False
  with assms obtain t p0 where g: "riscv_program_gettemp p = Inr (t, p0)"
    by (cases "riscv_program_gettemp p") auto
  note p0 = gettemp_Inr(5) [OF g]
  from assms False g show ?thesis
    by (auto elim!: or_fail_Inr dest!: lah_effect single_effect'
        simp: riscv_program_puttemp_def p0 split: if_splits)
qed


lemma emit_effect:
  assumes "emit e p = Inr (rc, p')"
  shows "rc = ERROR_OK \<and> target p' = target p
     \<and> instruction_count p \<le> instruction_count p'
     \<and> (instruction_count p \<le> riscv_debug_buffer_size (target p)
          \<longrightarrow> instruction_count p' \<le> riscv_debug_buffer_size (target p'))
     \<and> (\<forall>r. writes_xreg p r \<longrightarrow> writes_xreg p' r)
     \<and> (\<forall>r. in_use p' r \<longrightarrow> in_use p r)"
proof (cases e)
  case (Insert i)
  with assms show ?thesis
    by (auto dest!: single_effect')
next
  case (Swr d b off)
  with assms show ?thesis
    by (auto simp: riscv_program_swr_def dest!: single_effect)
next
  case (Shr d b off)
  with assms show ?thesis
    by (auto simp: riscv_program_shr_def dest!: single_effect)
next
  case (Sbr d b off)
  with assms show ?thesis
    by (auto simp: riscv_program_sbr_def dest!: single_effect)
next
  case (Lwr d b off)
  with assms show ?thesis
    by (auto simp: riscv_program_lwr_def dest!: single_effect)
next
  case (Lhr d b off)
  with assms show ?thesis
    by (auto simp: riscv_program_lhr_def dest!: single_effect)
next
  case (Lbr d b off)
  with assms show ?thesis
    by (auto simp: riscv_program_lbr_def dest!: single_effect)
next
  case (Lx d a)
  with assms show ?thesis
    by (auto simp: riscv_program_lx_def riscv_program_ld_def riscv_program_lw_def Let_def
          dest!: load_effect split: if_splits)
next
  case (Ld d a)
  with assms show ?thesis
    by (auto simp: riscv_program_ld_def Let_def dest!: load_effect)
next
  case (Lw d a)
  with assms show ?thesis
    by (auto simp: riscv_program_lw_def Let_def dest!: load_effect)
next
  case (Lh d a)
  with assms show ?thesis
    by (auto simp: riscv_program_lh_def Let_def dest!: load_effect)
next
  case (Lb d a)
  with assms show ?thesis
    by (auto simp: riscv_program_lb_def Let_def dest!: load_effect)
next
  case (Sx d a)
  with assms have sx: "riscv_program_sx p d a = Inr (rc, p')" by simp
  then consider "riscv_program_sd p d a = Inr (rc, p')" | "riscv_program_sw p d a = Inr (rc, p')"
    by (auto simp: riscv_program_sx_def split: if_splits)
  then show ?thesis
  proof cases
    case 1
    from store_effect [OF this [unfolded riscv_program_sd_def]] show ?thesis by auto
  next
    case 2
    from store_effect [OF this [unfolded riscv_program_sw_def]] show ?thesis by auto
  qed
next
  case (Sd d a)
  with assms have "riscv_program_sd p d a = Inr (rc, p')" by simp
  from store_effect [OF this [unfolded riscv_program_sd_def]] show ?thesis by auto
next
  case (Sw d a)
  with assms have "riscv_program_sw p d a = Inr (rc, p')" by simp
  from store_effect [OF this [unfolded riscv_program_sw_def]] show ?thesis by auto
next
  case (Sh d a)
  with assms have "riscv_program_sh p d a = Inr (rc, p')" by simp
  from store_effect [OF this [unfolded riscv_program_sh_def]] show ?thesis by auto
next
  case (Sb d a)
  with assms have "riscv_program_sb p d a = Inr (rc, p')" by simp
  from store_effect [OF this [unfolded riscv_program_sb_def]] show ?thesis by auto
next
  case (Csrr d csr)
  with assms show ?thesis
    by (auto simp: riscv_program_csrr_def dest!: single_effect' split: if_splits)
next
  case (Csrw d csr)
  with assms show ?thesis
    by (auto simp: riscv_program_csrw_def dest!: single_effect' split: if_splits)
next
  case (Csrrw d r csr)
  with assms show ?thesis
    by (auto simp: riscv_program_csrrw_def dest!: single_effect' split: if_splits)
next
  case Fence_i
  with assms show ?thesis
    by (auto simp: riscv_program_fence_i_def dest!: single_effect')
next
  case Fence
  with assms show ?thesis
    by (auto simp: riscv_program_fence_def dest!: single_effect')
next
  case Ebreak
  with assms show ?thesis
    by (auto simp: riscv_program_ebreak_def dest!: single_effect' split: if_splits)
next
  case (Lui d u)
  with assms show ?thesis
    by (auto simp: riscv_program_lui_def dest!: single_effect')
next
  case (Addi d r u)
  with assms show ?thesis
    by (auto simp: riscv_program_addi_def dest!: single_effect')
next
  case (Li d c)
  with assms show ?thesis
    by (auto simp: riscv_program_li_def riscv_program_lui_def riscv_program_addi_def
          elim!: or_fail_Inr dest!: single_effect')
next
  case (Lah d a)
  with assms show ?thesis
    by (auto dest!: lah_effect)
next
  case (Lal d a)
  with assms show ?thesis
    by (auto dest!: lal_effect)
qed


lemma call_in_use_dirtied:
  assumes "call c p = Inr p'" and "\<forall>r. c \<noteq> Dont_restore_register r" and "in_use_dirtied p"
  shows "in_use_dirtied p'"
proof (cases c)
  case (Emit e)
  with assms obtain rc where "emit e p = Inr (rc, p')"
    by (cases "emit e p") auto
  from emit_effect [OF this] assms(3) show ?thesis
    by (simp add: in_use_dirtied_def)
next
  case (Dont_restore_register r)
  with assms(2) show ?thesis by simp
next
  case (Do_restore_register r)
  with assms show ?thesis
    by (auto simp: riscv_program_do_restore_register_def in_use_dirtied_def split: if_splits)
next
  case Gettemp
  with assms obtain r where "riscv_program_gettemp p = Inr (r, p')"
    by (cases "riscv_program_gettemp p") auto
  from gettemp_Inr(5) [OF this] assms(3) show ?thesis
    by (simp add: in_use_dirtied_def)
next
  case (Puttemp r)
  with assms show ?thesis
    by (auto simp: riscv_program_puttemp_def in_use_dirtied_def split: if_splits)
qed


lemma run_in_use_dirtied:
  "run cs p = Inr p' \<Longrightarrow> \<forall>r. Dont_restore_register r \<notin> set cs \<Longrightarrow> in_use_dirtied p \<Longrightarrow>
   in_use_dirtied p'"
proof (induction cs arbitrary: p)
  case Nil
  then show ?case by simp
next
  case (Cons c cs)
  then obtain p1 where c: "call c p = Inr p1" and r: "run cs p1 = Inr p'"
    by (cases "call c p") auto
  from Cons.prems(2) have "\<forall>r. c \<noteq> Dont_restore_register r"
    and rest: "\<forall>r. Dont_restore_register r \<notin> set cs"
    by auto
  from call_in_use_dirtied [OF c this(1) Cons.prems(3)] have "in_use_dirtied p1" .
  from Cons.IH [OF r rest this] show ?case .
qed

subsection \<open>The program that execution leaves\<close>

lemma readback_loop_nothing:
  "\<forall>i \<in> set rs. i < riscv_debug_buffer_size (target p) \<Longrightarrow> readback_loop p rs h = (p, h)"
  by (induction rs) auto

lemma exec_program:
  assumes "riscv_program_exec T stack p t = Inr (rc, p', t')"
  shows "\<exists>p1. (if writes_memory p then riscv_program_fence p else Inr (ERROR_OK, p))
                 = Inr (ERROR_OK, p1)
              \<and> riscv_program_ebreak p1 = Inr (ERROR_OK, p')"
  using assms
  by (auto simp: riscv_program_exec_def readback_loop_nothing
      split: prod.splits sum.splits if_splits)

subsection \<open>No emission returns a failure\<close>

lemma fence_ebreak_outcome:
  "riscv_program_fence p = Inr (rc, q) \<Longrightarrow> rc = ERROR_OK"
  "riscv_program_ebreak p = Inr (rc, q) \<Longrightarrow> rc = ERROR_OK"
  using emit_effect [of Fence p rc q] emit_effect [of Ebreak p rc q] by simp_all

lemma exec_fatal:
  assumes "riscv_program_exec T stack p t = Inl f"
  shows "f = Insert_overflow"
proof -
  obtain saved t1 where
    s: "save_loop p [GDB_REGNO_XPR0 + 1 ..< Suc GDB_REGNO_XPR31] stack (keep_alive t) = (saved, t1)"
    by (cases "save_loop p [GDB_REGNO_XPR0 + 1 ..< Suc GDB_REGNO_XPR31] stack (keep_alive t)")
  have fence_fatal: "e = Insert_overflow" if "riscv_program_fence q = Inl e" for e q
    using that by (auto simp: riscv_program_fence_def riscv_program_insert_def split: if_splits)
  have ebreak_fatal: "e = Insert_overflow" if "riscv_program_ebreak q = Inl e" for e q
    using that
    by (auto simp: riscv_program_ebreak_def riscv_program_insert_def split: if_splits)
  show ?thesis
  proof (cases "if writes_memory p then riscv_program_fence p else Inr (ERROR_OK, p)")
    case (Inl e)
    with assms have "f = e"
      unfolding riscv_program_exec_def s by simp
    moreover from Inl have "e = Insert_overflow"
      by (auto dest: fence_fatal split: if_splits)
    ultimately show ?thesis by simp
  next
    case (Inr x)
    obtain rc1 p1 where x: "x = (rc1, p1)" by (cases x)
    from Inr x have rc1: "rc1 = ERROR_OK"
      by (auto dest: fence_ebreak_outcome(1) split: if_splits)
    show ?thesis
    proof (cases "riscv_program_ebreak p1")
      case (Inl e)
      with assms Inr x rc1 have "f = e"
        unfolding riscv_program_exec_def s by simp
      moreover from Inl have "e = Insert_overflow" by (rule ebreak_fatal)
      ultimately show ?thesis by simp
    next
      case ebreak: (Inr y)
      obtain rc2 p2 where y: "y = (rc2, p2)" by (cases y)
      from ebreak y have rc2: "rc2 = ERROR_OK"
        by (auto dest: fence_ebreak_outcome(2))
      from assms Inr x rc1 ebreak y rc2 have False
        unfolding riscv_program_exec_def s
        by (simp split: prod.splits if_splits)
      then show ?thesis ..
    qed
  qed
qed

text \<open>
  Claim C9. \<open>riscv_program_insert\<close> is fatal when the buffer is full and otherwise
  appends the word and returns \<open>ERROR_OK\<close>, so the check that follows a call of it
  never takes its \<open>ERROR_FAIL\<close> branch; no emission function returns \<open>ERROR_FAIL\<close>;
  \<open>riscv_program_ebreak\<close> returns \<open>ERROR_OK\<close> on every program whose instruction count
  is within the buffer size; and \<open>riscv_program_exec\<close> never ends in the abort of its
  "Unable to write ebreak" branch (nor in that of "Unable to write fence").
\<close>

theorem riscv_program_insert_never_fails:
  "riscv_program_insert p i =
     (if riscv_debug_buffer_size (target p) \<le> instruction_count p then Inl Insert_overflow
      else Inr (ERROR_OK,
             p\<lparr>debug_buffer := (debug_buffer p)[instruction_count p := i],
               instruction_count := instruction_count p + 1\<rparr>))
   \<and> (\<forall>k. or_fail (riscv_program_insert p i) k =
          (case riscv_program_insert p i of Inl f \<Rightarrow> Inl f | Inr (rc, q) \<Rightarrow> k q))
   \<and> (\<forall>e q. emit e p \<noteq> Inr (ERROR_FAIL, q))
   \<and> (\<forall>q. riscv_program_ebreak p \<noteq> Inr (ERROR_FAIL, q))
   \<and> (instruction_count p \<le> riscv_debug_buffer_size (target p) \<longrightarrow>
        (\<exists>q. riscv_program_ebreak p = Inr (ERROR_OK, q)))
   \<and> riscv_program_exec T stack p t \<noteq> Inl Unable_to_write_ebreak
   \<and> riscv_program_exec T stack p t \<noteq> Inl Unable_to_write_fence"
proof (intro conjI allI impI)
  show "riscv_program_insert p i =
     (if riscv_debug_buffer_size (target p) \<le> instruction_count p then Inl Insert_overflow
      else Inr (ERROR_OK,
             p\<lparr>debug_buffer := (debug_buffer p)[instruction_count p := i],
               instruction_count := instruction_count p + 1\<rparr>))"
    by (simp add: riscv_program_insert_def)
next
  fix k
  show "or_fail (riscv_program_insert p i) k =
          (case riscv_program_insert p i of Inl f \<Rightarrow> Inl f | Inr (rc, q) \<Rightarrow> k q)"
    by (simp add: or_fail_def riscv_program_insert_def)
next
  fix e q
  show "emit e p \<noteq> Inr (ERROR_FAIL, q)"
    using emit_effect [of e p ERROR_FAIL q] by auto
next
  fix q
  show "riscv_program_ebreak p \<noteq> Inr (ERROR_FAIL, q)"
    using fence_ebreak_outcome(2) [of p ERROR_FAIL q] by auto
next
  assume "instruction_count p \<le> riscv_debug_buffer_size (target p)"
  then show "\<exists>q. riscv_program_ebreak p = Inr (ERROR_OK, q)"
    by (simp add: riscv_program_ebreak_def riscv_program_insert_def)
next
  show "riscv_program_exec T stack p t \<noteq> Inl Unable_to_write_ebreak"
    using exec_fatal [of T stack p t Unable_to_write_ebreak] by auto
next
  show "riscv_program_exec T stack p t \<noteq> Inl Unable_to_write_fence"
    using exec_fatal [of T stack p t Unable_to_write_fence] by auto
qed

theorem riscv_program_insert_never_fails_witness:
  "instruction_count (riscv_program_init \<lparr>riscv_xlen = 32, riscv_debug_buffer_size = 16\<rparr>)
     \<le> riscv_debug_buffer_size
          (target (riscv_program_init \<lparr>riscv_xlen = 32, riscv_debug_buffer_size = 16\<rparr>))
   \<and> (\<exists>q. riscv_program_ebreak
              (riscv_program_init \<lparr>riscv_xlen = 32, riscv_debug_buffer_size = 16\<rparr>)
            = Inr (ERROR_OK, q))"
  using riscv_program_insert_never_fails
          [of "riscv_program_init \<lparr>riscv_xlen = 32, riscv_debug_buffer_size = 16\<rparr>"]
  by (simp add: init_fields)

subsection \<open>The capacity of the buffer\<close>









lemma exec_program_effect:
  assumes "riscv_program_exec T stack p t = Inr (rc, q, t')"
  shows "target q = target p
     \<and> (instruction_count p \<le> riscv_debug_buffer_size (target p)
          \<longrightarrow> instruction_count q \<le> riscv_debug_buffer_size (target q))
     \<and> writes_xreg q = writes_xreg p \<and> in_use q = in_use p"
proof -
  from exec_program [OF assms] obtain p1 where
    f: "(if writes_memory p then riscv_program_fence p else Inr (ERROR_OK, p)) = Inr (ERROR_OK, p1)"
    and e: "riscv_program_ebreak p1 = Inr (ERROR_OK, q)"
    by blast
  from f have 1: "target p1 = target p
     \<and> (instruction_count p \<le> riscv_debug_buffer_size (target p)
          \<longrightarrow> instruction_count p1 \<le> riscv_debug_buffer_size (target p1))
     \<and> writes_xreg p1 = writes_xreg p \<and> in_use p1 = in_use p"
    by (auto simp: riscv_program_fence_def dest!: single_effect' split: if_splits)
  from e have 2: "target q = target p1
     \<and> (instruction_count p1 \<le> riscv_debug_buffer_size (target p1)
          \<longrightarrow> instruction_count q \<le> riscv_debug_buffer_size (target q))
     \<and> writes_xreg q = writes_xreg p1 \<and> in_use q = in_use p1"
    by (auto simp: riscv_program_ebreak_def dest!: single_effect' split: if_splits)
  from 1 2 show ?thesis by auto
qed















subsection \<open>In use implies dirtied\<close>

text \<open>
  Claim C8, as amended. A fresh program satisfies the invariant that every register in
  use is marked dirtied, and every operation keeps it except
  \<open>riscv_program_dont_restore_register\<close>: every emission function,
  \<open>riscv_program_do_restore_register\<close>, \<open>riscv_program_gettemp\<close>,
  \<open>riscv_program_puttemp\<close> and \<open>riscv_program_exec\<close> keep it, so it holds after every
  sequence of calls without \<open>riscv_program_dont_restore_register\<close> on a fresh program.
  \<open>riscv_program_puttemp\<close> clears \<open>in_use\<close> for the register and leaves the dirtied marks
  as they are. \<open>riscv_program_dont_restore_register\<close> clears the dirtied mark and leaves
  \<open>in_use\<close> as it is; it keeps the invariant when the register is not in use.
\<close>

theorem in_use_dirtied_kept:
  "in_use_dirtied (riscv_program_init tgt)
   \<and> (\<forall>c q. in_use_dirtied p \<and> call c p = Inr q \<and> (\<forall>r. c \<noteq> Dont_restore_register r) \<longrightarrow>
         in_use_dirtied q)
   \<and> (\<forall>T stack t rc q t'.
         in_use_dirtied p \<and> riscv_program_exec T stack p t = Inr (rc, q, t') \<longrightarrow>
         in_use_dirtied q)
   \<and> (\<forall>cs q. (\<forall>r. Dont_restore_register r \<notin> set cs)
         \<and> run cs (riscv_program_init tgt) = Inr q \<longrightarrow> in_use_dirtied q)
   \<and> (\<forall>r q. riscv_program_puttemp p r = Inr q \<longrightarrow>
         \<not> in_use q r \<and> writes_xreg q = writes_xreg p)
   \<and> (\<forall>r rc q. riscv_program_dont_restore_register p r = Inr (rc, q) \<longrightarrow>
         \<not> writes_xreg q r \<and> in_use q = in_use p)
   \<and> (\<forall>r q. in_use_dirtied p \<and> \<not> in_use p r \<and> call (Dont_restore_register r) p = Inr q \<longrightarrow>
         in_use_dirtied q)"
proof (intro conjI allI impI)
  show init: "in_use_dirtied (riscv_program_init tgt)"
    by (simp add: in_use_dirtied_def init_fields)
  {
    fix c q
    assume "in_use_dirtied p \<and> call c p = Inr q \<and> (\<forall>r. c \<noteq> Dont_restore_register r)"
    then show "in_use_dirtied q"
      using call_in_use_dirtied [of c p q] by blast
  }
  {
    fix T stack t rc q t'
    assume h: "in_use_dirtied p \<and> riscv_program_exec T stack p t = Inr (rc, q, t')"
    then have "writes_xreg q = writes_xreg p \<and> in_use q = in_use p"
      using exec_program_effect [of T stack p t rc q t'] by blast
    with h show "in_use_dirtied q"
      by (simp add: in_use_dirtied_def)
  }
  {
    fix cs q
    assume "(\<forall>r. Dont_restore_register r \<notin> set cs) \<and> run cs (riscv_program_init tgt) = Inr q"
    then show "in_use_dirtied q"
      using run_in_use_dirtied [of cs "riscv_program_init tgt" q] init by blast
  }
  {
    fix r q
    assume "riscv_program_puttemp p r = Inr q"
    then show "\<not> in_use q r" "writes_xreg q = writes_xreg p"
      by (auto simp: riscv_program_puttemp_def split: if_splits)
  }
  {
    fix r rc q
    assume "riscv_program_dont_restore_register p r = Inr (rc, q)"
    then show "\<not> writes_xreg q r" "in_use q = in_use p"
      by (auto simp: riscv_program_dont_restore_register_def split: if_splits)
  }
  {
    fix r q
    assume "in_use_dirtied p \<and> \<not> in_use p r \<and> call (Dont_restore_register r) p = Inr q"
    then show "in_use_dirtied q"
      by (auto simp: riscv_program_dont_restore_register_def in_use_dirtied_def split: if_splits)
  }
qed


lemma run_gettemp_puttemp_eval:
  "run [Gettemp, Puttemp 8]
     (riscv_program_init \<lparr>riscv_xlen = 64, riscv_debug_buffer_size = 16\<rparr>)
     = Inr ((riscv_program_init \<lparr>riscv_xlen = 64, riscv_debug_buffer_size = 16\<rparr>)
             \<lparr>writes_xreg := (\<lambda>_. False)(8 := True), in_use := (\<lambda>_. False)(8 := False)\<rparr>)"
  by (simp add: gettemp_init_eval riscv_program_puttemp_def RISCV_REGISTER_COUNT_def)


theorem in_use_dirtied_kept_witness:
  "\<exists>q. run [Gettemp, Puttemp 8]
          (riscv_program_init \<lparr>riscv_xlen = 64, riscv_debug_buffer_size = 16\<rparr>) = Inr q
      \<and> in_use_dirtied q \<and> writes_xreg q 8 \<and> \<not> in_use q 8"
proof -
  let ?T = "\<lparr>riscv_xlen = 64, riscv_debug_buffer_size = 16\<rparr>"
  let ?q = "(riscv_program_init ?T)
             \<lparr>writes_xreg := (\<lambda>_. False)(8 := True), in_use := (\<lambda>_. False)(8 := False)\<rparr>"
  note seq = in_use_dirtied_kept [of ?T "riscv_program_init ?T",
      THEN conjunct2, THEN conjunct2, THEN conjunct2, THEN conjunct1, rule_format,
      of "[Gettemp, Puttemp 8]" ?q]
  have "\<forall>r. Dont_restore_register r \<notin> set [Gettemp, Puttemp 8]"
    by simp
  with run_gettemp_puttemp_eval have "in_use_dirtied ?q"
    by (intro seq conjI)
  moreover have "writes_xreg ?q 8" "\<not> in_use ?q 8"
    by simp_all
  ultimately show ?thesis
    using run_gettemp_puttemp_eval by blast
qed


text \<open>
  The claim as stated fails for \<open>riscv_program_dont_restore_register\<close>: after allocating
  a temporary on a fresh program (S0, register 8) and taking its dirtied mark away,
  register 8 is in use and not dirtied.
\<close>

theorem dont_restore_register_breaks_invariant_counterexample:
  "run [Gettemp, Dont_restore_register 8]
     (riscv_program_init \<lparr>riscv_xlen = 64, riscv_debug_buffer_size = 16\<rparr>)
     = Inr ((riscv_program_init \<lparr>riscv_xlen = 64, riscv_debug_buffer_size = 16\<rparr>)
             \<lparr>writes_xreg := (\<lambda>_. False)(8 := False), in_use := (\<lambda>_. False)(8 := True)\<rparr>)
   \<and> in_use ((riscv_program_init \<lparr>riscv_xlen = 64, riscv_debug_buffer_size = 16\<rparr>)
             \<lparr>writes_xreg := (\<lambda>_. False)(8 := False), in_use := (\<lambda>_. False)(8 := True)\<rparr>) 8
   \<and> \<not> writes_xreg ((riscv_program_init \<lparr>riscv_xlen = 64, riscv_debug_buffer_size = 16\<rparr>)
             \<lparr>writes_xreg := (\<lambda>_. False)(8 := False), in_use := (\<lambda>_. False)(8 := True)\<rparr>) 8
   \<and> \<not> in_use_dirtied ((riscv_program_init \<lparr>riscv_xlen = 64, riscv_debug_buffer_size = 16\<rparr>)
             \<lparr>writes_xreg := (\<lambda>_. False)(8 := False), in_use := (\<lambda>_. False)(8 := True)\<rparr>)"
proof -
  let ?q = "(riscv_program_init \<lparr>riscv_xlen = 64, riscv_debug_buffer_size = 16\<rparr>)
             \<lparr>writes_xreg := (\<lambda>_. False)(8 := False), in_use := (\<lambda>_. False)(8 := True)\<rparr>"
  have r: "run [Gettemp, Dont_restore_register 8]
     (riscv_program_init \<lparr>riscv_xlen = 64, riscv_debug_buffer_size = 16\<rparr>) = Inr ?q"
    by (simp add: gettemp_init_eval riscv_program_dont_restore_register_def
        RISCV_REGISTER_COUNT_def)
  have a: "in_use ?q 8" and b: "\<not> writes_xreg ?q 8"
    by simp_all
  have c: "\<not> in_use_dirtied ?q"
  proof
    assume "in_use_dirtied ?q"
    then have "\<forall>r < RISCV_REGISTER_COUNT. in_use ?q r \<longrightarrow> writes_xreg ?q r"
      by (simp only: in_use_dirtied_def)
    moreover have "(8 :: nat) < RISCV_REGISTER_COUNT"
      by (simp add: RISCV_REGISTER_COUNT_def)
    ultimately have "in_use ?q 8 \<longrightarrow> writes_xreg ?q 8"
      by blast
    with a b show False by blast
  qed
  from r a b c show ?thesis by blast
qed

subsection \<open>The loops of execution\<close>

lemma save_loop_saved:
  "fst (save_loop p rs saved h) j
     = (if j \<in> set rs \<and> writes_xreg p j then xregs h j else saved j)"
  by (induction rs arbitrary: saved h) (auto simp: riscv_get_register_def)

lemma save_loop_hart:
  "snd (save_loop p rs saved h)
     = h\<lparr>calls := calls h @ map Get_register (filter (writes_xreg p) rs)\<rparr>"
  by (induction rs arbitrary: saved h) (auto simp: riscv_get_register_def)

lemma write_loop_xregs:
  "write_loop T p rs h = (rc, h') \<Longrightarrow> xregs h' = xregs h"
proof (induction rs arbitrary: h)
  case Nil
  then show ?case by simp
next
  case (Cons i rs)
  obtain rc1 h1 where w: "riscv_write_debug_buffer T h i (debug_buffer p ! i) = (rc1, h1)"
    by (cases "riscv_write_debug_buffer T h i (debug_buffer p ! i)")
  then have x: "xregs h1 = xregs h"
    by (auto simp: riscv_write_debug_buffer_def split: error_code.splits)
  show ?case
  proof (cases "rc1 = ERROR_OK")
    case True
    with Cons.prems w have "write_loop T p rs h1 = (rc, h')" by simp
    from Cons.IH [OF this] x show ?thesis by simp
  next
    case False
    with Cons.prems w x show ?thesis by auto
  qed
qed

lemma write_loop_calls:
  "write_loop T p rs h = (ERROR_OK, h') \<Longrightarrow>
   calls h' = calls h @ map (\<lambda>i. Write_debug_buffer i (debug_buffer p ! i)) rs"
proof (induction rs arbitrary: h)
  case Nil
  then show ?case by simp
next
  case (Cons i rs)
  obtain rc1 h1 where w: "riscv_write_debug_buffer T h i (debug_buffer p ! i) = (rc1, h1)"
    by (cases "riscv_write_debug_buffer T h i (debug_buffer p ! i)")
  then have c: "calls h1 = calls h @ [Write_debug_buffer i (debug_buffer p ! i)]"
    by (auto simp: riscv_write_debug_buffer_def split: error_code.splits)
  from Cons.prems w have ok: "rc1 = ERROR_OK"
    by (auto split: if_splits)
  with Cons.prems w have "write_loop T p rs h1 = (ERROR_OK, h')" by simp
  from Cons.IH [OF this] c show ?case by simp
qed

lemma write_loop_succeeds:
  "\<forall>h i w. write_status T h i w = ERROR_OK \<Longrightarrow> \<exists>h'. write_loop T p rs h = (ERROR_OK, h')"
  by (induction rs arbitrary: h) (auto simp: riscv_write_debug_buffer_def)

lemma restore_loop_calls:
  "calls (restore_loop p saved rs h)
     = calls h @ map (\<lambda>i. Set_register i (saved i)) (filter (writes_xreg p) rs)"
  by (induction rs arbitrary: h) (auto simp: riscv_set_register_def)

lemma restore_loop_progbuf:
  "progbuf (restore_loop p saved rs h) = progbuf h"
  by (induction rs arbitrary: h) (auto simp: riscv_set_register_def)

lemma restore_loop_xregs:
  "distinct rs \<Longrightarrow>
   xregs (restore_loop p saved rs h) j
     = (if j \<in> set rs \<and> writes_xreg p j then saved j else xregs h j)"
  by (induction rs arbitrary: h) (auto simp: riscv_set_register_def)

lemma execute_calls:
  "riscv_execute_debug_buffer T h = (rc, h') \<Longrightarrow> calls h' = calls h @ [Execute_debug_buffer]"
  by (auto simp: riscv_execute_debug_buffer_def split: prod.splits)



lemma buffer_reads_append:
  "buffer_reads (xs @ ys) = buffer_reads xs @ buffer_reads ys"
  by (induction xs rule: buffer_reads.induct) simp_all

lemma trace_of_gets:
  "registers_read (map Get_register rs) = rs"
  "registers_written (map Get_register rs) = []"
  "buffer_reads (map Get_register rs) = []"
  by (induction rs) simp_all

lemma trace_of_sets:
  "registers_read (map (\<lambda>i. Set_register i (f i)) rs) = []"
  "registers_written (map (\<lambda>i. Set_register i (f i)) rs) = map (\<lambda>i. (i, f i)) rs"
  "buffer_reads (map (\<lambda>i. Set_register i (f i)) rs) = []"
  by (induction rs) simp_all

lemma trace_of_writes:
  "registers_read (map (\<lambda>i. Write_debug_buffer i (f i)) rs) = []"
  "registers_written (map (\<lambda>i. Write_debug_buffer i (f i)) rs) = []"
  "buffer_reads (map (\<lambda>i. Write_debug_buffer i (f i)) rs) = []"
  by (induction rs) simp_all


subsection \<open>A successful execution, step by step\<close>

lemma exec_ok_steps:
  assumes "riscv_program_exec T stack p t = Inr (ERROR_OK, q, t')"
  shows "\<exists>t2 t3.
      riscv_program_write T q
        (snd (save_loop p [GDB_REGNO_XPR0 + 1 ..< Suc GDB_REGNO_XPR31] stack (keep_alive t)))
        = (ERROR_OK, t2)
    \<and> riscv_execute_debug_buffer T t2 = (ERROR_OK, t3)
    \<and> t' = restore_loop q
             (fst (save_loop p [GDB_REGNO_XPR0 + 1 ..< Suc GDB_REGNO_XPR31] stack (keep_alive t)))
             [GDB_REGNO_XPR0 ..< Suc GDB_REGNO_XPR31] t3"
proof -
  obtain saved t1 where
    s: "save_loop p [GDB_REGNO_XPR0 + 1 ..< Suc GDB_REGNO_XPR31] stack (keep_alive t) = (saved, t1)"
    by (cases "save_loop p [GDB_REGNO_XPR0 + 1 ..< Suc GDB_REGNO_XPR31] stack (keep_alive t)")
  from exec_program [OF assms] obtain p1 where
    f: "(if writes_memory p then riscv_program_fence p else Inr (ERROR_OK, p)) = Inr (ERROR_OK, p1)"
    and e: "riscv_program_ebreak p1 = Inr (ERROR_OK, q)"
    by blast
  obtain rc3 t2 where w: "riscv_program_write T q t1 = (rc3, t2)"
    by (cases "riscv_program_write T q t1")
  obtain rc4 t3 where x: "riscv_execute_debug_buffer T t2 = (rc4, t3)"
    by (cases "riscv_execute_debug_buffer T t2")
  have r: "readback_loop q [0 ..< riscv_debug_buffer_size (target q)] t3 = (q, t3)"
    by (rule readback_loop_nothing) simp
  from assms have "rc3 = ERROR_OK \<and> rc4 = ERROR_OK
      \<and> t' = restore_loop q saved [GDB_REGNO_XPR0 ..< Suc GDB_REGNO_XPR31] t3"
    unfolding riscv_program_exec_def s
    by (simp add: f e w x r split: if_splits)
  with w x s show ?thesis by simp
qed

lemma exec_ok_trace:
  assumes "riscv_program_exec T stack p t = Inr (ERROR_OK, q, t')"
  shows "calls t' = calls t @ [Keep_alive]
      @ map Get_register (filter (writes_xreg p) [GDB_REGNO_XPR0 + 1 ..< Suc GDB_REGNO_XPR31])
      @ map (\<lambda>i. Write_debug_buffer i (debug_buffer q ! i)) [0 ..< instruction_count q]
      @ [Execute_debug_buffer]
      @ map (\<lambda>i. Set_register i (if GDB_REGNO_XPR0 + 1 \<le> i then xregs t i else stack i))
          (filter (writes_xreg p) [GDB_REGNO_XPR0 ..< Suc GDB_REGNO_XPR31])"
    and "j \<le> GDB_REGNO_XPR31 \<Longrightarrow> writes_xreg p j \<Longrightarrow>
         xregs t' j = (if GDB_REGNO_XPR0 + 1 \<le> j then xregs t j else stack j)"
proof -
  let ?rs = "[GDB_REGNO_XPR0 + 1 ..< Suc GDB_REGNO_XPR31]"
  let ?saved = "fst (save_loop p ?rs stack (keep_alive t))"
  let ?t1 = "snd (save_loop p ?rs stack (keep_alive t))"
  from exec_ok_steps [OF assms] obtain t2 t3 where
    w: "riscv_program_write T q ?t1 = (ERROR_OK, t2)"
    and x: "riscv_execute_debug_buffer T t2 = (ERROR_OK, t3)"
    and t': "t' = restore_loop q ?saved [GDB_REGNO_XPR0 ..< Suc GDB_REGNO_XPR31] t3"
    by blast
  from exec_program_effect [OF assms] have dirt: "writes_xreg q = writes_xreg p"
    by simp
  have saved: "?saved i = (if GDB_REGNO_XPR0 + 1 \<le> i then xregs t i else stack i)"
    if "i \<le> GDB_REGNO_XPR31" "writes_xreg p i" for i
    using that by (auto simp: save_loop_saved keep_alive_def)
  have c1: "calls ?t1 = calls t @ [Keep_alive] @ map Get_register (filter (writes_xreg p) ?rs)"
    by (simp add: save_loop_hart keep_alive_def)
  from w have c2: "calls t2 = calls ?t1
      @ map (\<lambda>i. Write_debug_buffer i (debug_buffer q ! i)) [0 ..< instruction_count q]"
    unfolding riscv_program_write_def by (rule write_loop_calls)
  from x have c3: "calls t3 = calls t2 @ [Execute_debug_buffer]"
    by (rule execute_calls)
  have sets: "map (\<lambda>i. Set_register i (?saved i))
        (filter (writes_xreg p) [GDB_REGNO_XPR0 ..< Suc GDB_REGNO_XPR31])
      = map (\<lambda>i. Set_register i (if GDB_REGNO_XPR0 + 1 \<le> i then xregs t i else stack i))
        (filter (writes_xreg p) [GDB_REGNO_XPR0 ..< Suc GDB_REGNO_XPR31])"
  proof (rule map_cong [OF refl])
    fix i
    assume "i \<in> set (filter (writes_xreg p) [GDB_REGNO_XPR0 ..< Suc GDB_REGNO_XPR31])"
    then have "i \<le> GDB_REGNO_XPR31" "writes_xreg p i"
      by auto
    from saved [OF this]
    show "Set_register i (?saved i)
        = Set_register i (if GDB_REGNO_XPR0 + 1 \<le> i then xregs t i else stack i)"
      by simp
  qed
  show "calls t' = calls t @ [Keep_alive]
      @ map Get_register (filter (writes_xreg p) ?rs)
      @ map (\<lambda>i. Write_debug_buffer i (debug_buffer q ! i)) [0 ..< instruction_count q]
      @ [Execute_debug_buffer]
      @ map (\<lambda>i. Set_register i (if GDB_REGNO_XPR0 + 1 \<le> i then xregs t i else stack i))
          (filter (writes_xreg p) [GDB_REGNO_XPR0 ..< Suc GDB_REGNO_XPR31])"
    unfolding t' restore_loop_calls dirt sets c3 c2 c1 by simp
  show "xregs t' j = (if GDB_REGNO_XPR0 + 1 \<le> j then xregs t j else stack j)"
    if "j \<le> GDB_REGNO_XPR31" "writes_xreg p j"
  proof -
    from that have "xregs t' j = ?saved j"
      by (simp add: t' restore_loop_xregs dirt GDB_REGNO_XPR0_def del: upt_Suc)
    with saved [OF that] show ?thesis by simp
  qed
qed

lemma exec_succeeds:
  assumes "\<forall>h i w. write_status T h i w = ERROR_OK"
    and "\<forall>h. fst (execute T h) = ERROR_OK"
    and "instruction_count p \<le> riscv_debug_buffer_size (target p)"
    and "writes_memory p \<longrightarrow> instruction_count p < riscv_debug_buffer_size (target p)"
  shows "\<exists>q t'. riscv_program_exec T stack p t = Inr (ERROR_OK, q, t')"
proof -
  obtain saved t1 where
    s: "save_loop p [GDB_REGNO_XPR0 + 1 ..< Suc GDB_REGNO_XPR31] stack (keep_alive t) = (saved, t1)"
    by (cases "save_loop p [GDB_REGNO_XPR0 + 1 ..< Suc GDB_REGNO_XPR31] stack (keep_alive t)")
  define p1 where "p1 = (if writes_memory p
      then p\<lparr>debug_buffer := (debug_buffer p)[instruction_count p := FENCE],
             instruction_count := instruction_count p + 1\<rparr>
      else p)"
  from assms(4) have
    f: "(if writes_memory p then riscv_program_fence p else Inr (ERROR_OK, p)) = Inr (ERROR_OK, p1)"
    by (auto simp: p1_def riscv_program_fence_def riscv_program_insert_def)
  from assms(3,4) have "instruction_count p1 \<le> riscv_debug_buffer_size (target p1)"
    by (auto simp: p1_def)
  then have "\<exists>q. riscv_program_ebreak p1 = Inr (ERROR_OK, q)"
    by (simp add: riscv_program_ebreak_def riscv_program_insert_def)
  then obtain q where e: "riscv_program_ebreak p1 = Inr (ERROR_OK, q)"
    by blast
  from write_loop_succeeds [OF assms(1)] obtain t2 where
    w: "riscv_program_write T q t1 = (ERROR_OK, t2)"
    unfolding riscv_program_write_def by blast
  from assms(2) obtain t3 where x: "riscv_execute_debug_buffer T t2 = (ERROR_OK, t3)"
    by (cases "execute T t2") (auto simp: riscv_execute_debug_buffer_def dest: spec [of _ t2])
  have r: "readback_loop q [0 ..< riscv_debug_buffer_size (target q)] t3 = (q, t3)"
    by (rule readback_loop_nothing) simp
  show ?thesis
    unfolding riscv_program_exec_def s
    by (simp add: f e w x r)
qed

subsection \<open>Saving and restoring the dirtied registers\<close>








subsection \<open>Reading the buffer back\<close>

lemma exec_buffer_reads:
  assumes "riscv_program_exec T stack p t = Inr (ERROR_OK, q, t')"
  shows "buffer_reads (calls t') = buffer_reads (calls t)"
  unfolding exec_ok_trace(1) [OF assms]
  by (simp only: buffer_reads_append trace_of_gets trace_of_writes trace_of_sets
      buffer_reads.simps append_Nil2)

text \<open>
  Claim C3. On a fresh program and a target whose execution overwrites the whole
  hardware buffer with the word \<open>0x1234\<close>, \<open>riscv_program_exec\<close> returns \<open>ERROR_OK\<close>
  having made no call of \<open>riscv_read_debug_buffer\<close>, and the program's \<open>debug_buffer\<close>
  still holds the breakpoint it transferred at index 0, not the word the hardware buffer
  now holds: the guard \<^verbatim>\<open>i >= riscv_debug_buffer_size(p->target)\<close> inside the loop over
  \<^verbatim>\<open>i < riscv_debug_buffer_size(p->target)\<close> is never true.
\<close>

theorem riscv_program_exec_reads_nothing_back:
  "(case riscv_program_exec
            \<lparr>write_status = (\<lambda>h i w. ERROR_OK),
             execute = (\<lambda>h. (ERROR_OK, h\<lparr>progbuf := (\<lambda>_. Insn_word 0x1234)\<rparr>))\<rparr>
            (\<lambda>_. 0)
            (riscv_program_init \<lparr>riscv_xlen = 64, riscv_debug_buffer_size = 16\<rparr>)
            \<lparr>xregs = (\<lambda>_. 7), progbuf = (\<lambda>_. Insn_word 0), calls = []\<rparr> of
         Inl f \<Rightarrow> False
       | Inr (rc, q, t') \<Rightarrow>
           rc = ERROR_OK
         \<and> buffer_reads (calls t') = []
         \<and> progbuf t' 0 = Insn_word 0x1234
         \<and> debug_buffer q ! 0 = EBREAK)"
proof -
  let ?T = "\<lparr>write_status = (\<lambda>h i w. ERROR_OK),
        execute = (\<lambda>h. (ERROR_OK, h\<lparr>progbuf := (\<lambda>_. Insn_word 0x1234)\<rparr>))\<rparr>"
  let ?P = "riscv_program_init \<lparr>riscv_xlen = 64, riscv_debug_buffer_size = 16\<rparr>"
  let ?t = "\<lparr>xregs = (\<lambda>_. 7), progbuf = (\<lambda>_. Insn_word 0), calls = []\<rparr>"
  have "\<exists>q t'. riscv_program_exec ?T (\<lambda>_. 0) ?P ?t = Inr (ERROR_OK, q, t')"
    by (rule exec_succeeds) (simp_all add: init_fields)
  then obtain q t' where ok: "riscv_program_exec ?T (\<lambda>_. 0) ?P ?t = Inr (ERROR_OK, q, t')"
    by blast
  from exec_program [OF ok] have "riscv_program_ebreak ?P = Inr (ERROR_OK, q)"
    by (simp add: init_fields)
  then have q: "debug_buffer q ! 0 = EBREAK"
    by (auto simp: riscv_program_ebreak_def riscv_program_insert_def init_fields
        RISCV_MAX_DEBUG_BUFFER_SIZE_def split: if_splits)
  from exec_buffer_reads [OF ok] have reads: "buffer_reads (calls t') = []"
    by simp
  from exec_ok_steps [OF ok] obtain t2 t3 where
    x: "riscv_execute_debug_buffer ?T t2 = (ERROR_OK, t3)"
    and t': "progbuf t' = progbuf t3"
    by (auto simp: restore_loop_progbuf simp del: upt_Suc)
  from x have "progbuf t3 = (\<lambda>_. Insn_word 0x1234)"
    by (auto simp: riscv_execute_debug_buffer_def)
  with t' have hw: "progbuf t' 0 = Insn_word 0x1234"
    by simp
  from ok q reads hw show ?thesis by simp
qed

end
